theory Spec2Isabelle
  imports Complex_Main "HOL-Library.Sublist" "HOL-Library.AList"
begin

section \<open>Python values\<close>

text \<open>
  The adapters of \<^verbatim>\<open>dvclive/plots/sklearn.py\<close> receive arbitrary Python objects. The values
  that matter for them are modelled by a datatype: scalars, strings, and the three built-in
  containers. A Python \<^verbatim>\<open>float\<close> is never computed with by this module, only passed
  on, tested for truth and printed, so its carrier is the type parameter \<open>'f\<close>.
  A \<^verbatim>\<open>dict\<close> is an association list in insertion order. A \<open>string\<close> is a list of
  8-bit characters; the module only compares and cuts strings at ASCII patterns, which
  behaves the same on UTF-8 bytes as on code points.
\<close>

datatype 'f pyval =
    PNone
  | PBool bool
  | PInt int
  | PFloat 'f
  | PStr string
  | PTuple "'f pyval list"
  | PList "'f pyval list"
  | PDict "('f pyval \<times> 'f pyval) list"

datatype error =
    NotImplementedError
  | AttributeError
  | TypeError
  | IndexError
  | KeyError
  | ImportError
  | FileNotFoundError
  | FileExistsError
  | NotADirectoryError
  | IsADirectoryError
  | PermissionError
  | OtherError string

type_synonym 'f kwargs = "(string \<times> 'f pyval) list"

text \<open>
  What the interpreter does with an opaque float (its truth value, its equality with an
  integer dictionary key) and how \<^verbatim>\<open>str()\<close> prints floats and containers is not part
  of this module; it is taken as a parameter.
\<close>

record 'f runtime =
  float_nonzero :: "'f \<Rightarrow> bool"
  float_eq_int :: "'f \<Rightarrow> int \<Rightarrow> bool"
  str_other :: "'f pyval \<Rightarrow> string"

fun truthy :: "'f runtime \<Rightarrow> 'f pyval \<Rightarrow> bool" where
  "truthy rt PNone = False"
| "truthy rt (PBool b) = b"
| "truthy rt (PInt i) = (i \<noteq> 0)"
| "truthy rt (PFloat x) = float_nonzero rt x"
| "truthy rt (PStr s) = (s \<noteq> [])"
| "truthy rt (PTuple xs) = (xs \<noteq> [])"
| "truthy rt (PList xs) = (xs \<noteq> [])"
| "truthy rt (PDict kvs) = (kvs \<noteq> [])"

text \<open>\<^verbatim>\<open>a or b\<close> and \<^verbatim>\<open>kwargs.get(k)\<close>.\<close>

definition py_or :: "'f runtime \<Rightarrow> 'f pyval \<Rightarrow> 'f pyval \<Rightarrow> 'f pyval" where
  "py_or rt a b = (if truthy rt a then a else b)"

definition kwargs_get :: "'f kwargs \<Rightarrow> string \<Rightarrow> 'f pyval" where
  "kwargs_get kw k = (case map_of kw k of None \<Rightarrow> PNone | Some v \<Rightarrow> v)"

text \<open>
  \<^verbatim>\<open>val[0]\<close> and \<^verbatim>\<open>val[1]\<close>: indexing a sequence with a literal index raises
  \<^verbatim>\<open>IndexError\<close> out of range, a dict is searched for an equal key, and a scalar is not
  subscriptable.
\<close>

fun key_eq_int :: "'f runtime \<Rightarrow> 'f pyval \<Rightarrow> int \<Rightarrow> bool" where
  "key_eq_int rt (PInt j) i = (j = i)"
| "key_eq_int rt (PBool b) i = ((if b then 1 else 0) = i)"
| "key_eq_int rt (PFloat x) i = float_eq_int rt x i"
| "key_eq_int rt _ i = False"

fun dict_getitem :: "'f runtime \<Rightarrow> ('f pyval \<times> 'f pyval) list \<Rightarrow> int \<Rightarrow> error + 'f pyval" where
  "dict_getitem rt [] i = Inl KeyError"
| "dict_getitem rt ((k, v) # kvs) i = (if key_eq_int rt k i then Inr v else dict_getitem rt kvs i)"

definition seq_getitem :: "'a list \<Rightarrow> nat \<Rightarrow> error + 'a" where
  "seq_getitem xs i = (if i < length xs then Inr (xs ! i) else Inl IndexError)"

fun getitem :: "'f runtime \<Rightarrow> 'f pyval \<Rightarrow> nat \<Rightarrow> error + 'f pyval" where
  "getitem rt (PTuple xs) i = seq_getitem xs i"
| "getitem rt (PList xs) i = seq_getitem xs i"
| "getitem rt (PStr s) i = map_sum id (\<lambda>c. PStr [c]) (seq_getitem s i)"
| "getitem rt (PDict kvs) i = dict_getitem rt kvs (int i)"
| "getitem rt _ i = Inl TypeError"

text \<open>Iteration, as \<^verbatim>\<open>zip\<close> performs it on each argument.\<close>

fun py_iter :: "'f pyval \<Rightarrow> error + 'f pyval list" where
  "py_iter (PTuple xs) = Inr xs"
| "py_iter (PList xs) = Inr xs"
| "py_iter (PStr s) = Inr (map (\<lambda>c. PStr [c]) s)"
| "py_iter (PDict kvs) = Inr (map fst kvs)"
| "py_iter _ = Inl TypeError"

text \<open>\<^verbatim>\<open>str(x)\<close> on strings, integers, booleans and \<^verbatim>\<open>None\<close>.\<close>

definition digit_char :: "nat \<Rightarrow> char" where
  "digit_char d = char_of (48 + d)"

fun nat_digits :: "nat \<Rightarrow> string" where
  "nat_digits n = (if n < 10 then [digit_char n] else nat_digits (n div 10) @ [digit_char (n mod 10)])"

definition int_str :: "int \<Rightarrow> string" where
  "int_str i = (if i < 0 then CHR ''-'' # nat_digits (nat (- i)) else nat_digits (nat i))"

fun py_str :: "'f runtime \<Rightarrow> 'f pyval \<Rightarrow> string" where
  "py_str rt (PStr s) = s"
| "py_str rt (PInt i) = int_str i"
| "py_str rt (PBool b) = (if b then ''True'' else ''False'')"
| "py_str rt PNone = ''None''"
| "py_str rt v = str_other rt v"

section \<open>Strings and paths\<close>

text \<open>
  \<^verbatim>\<open>s.replace(old, new)\<close> scans from the left and replaces non-overlapping occurrences.
  With an empty \<^verbatim>\<open>old\<close> Python inserts \<^verbatim>\<open>new\<close> before every character and at
  the end.
\<close>

fun str_replace :: "string \<Rightarrow> string \<Rightarrow> string \<Rightarrow> string" where
  "str_replace [] new [] = new"
| "str_replace [] new (c # cs) = new @ c # str_replace [] new cs"
| "str_replace (p # ps) new [] = []"
| "str_replace (p # ps) new (c # cs) =
     (if prefix (p # ps) (c # cs)
      then new @ str_replace (p # ps) new (drop (length ps) cs)
      else c # str_replace (p # ps) new cs)"

text \<open>\<^verbatim>\<open>s.split(sep)\<close> for a one-character separator, and \<^verbatim>\<open>sep.join(xs)\<close>.\<close>

fun split_on :: "char \<Rightarrow> string \<Rightarrow> string list" where
  "split_on sep [] = [[]]"
| "split_on sep (c # cs) =
     (if c = sep then [] # split_on sep cs
      else (case split_on sep cs of
              [] \<Rightarrow> [[c]]
            | w # ws \<Rightarrow> (c # w) # ws))"

fun join_sep :: "string \<Rightarrow> string list \<Rightarrow> string" where
  "join_sep sep [] = []"
| "join_sep sep [x] = x"
| "join_sep sep (x # y # ys) = x @ sep @ join_sep sep (y # ys)"

text \<open>
  A \<^verbatim>\<open>pathlib.PurePosixPath\<close>: the root (\<^verbatim>\<open>""\<close>, \<^verbatim>\<open>"/"\<close> or \<^verbatim>\<open>"//"\<close>) and the
  components. Parsing drops empty components and \<^verbatim>\<open>"."\<close>; exactly two leading slashes
  are kept as a root of their own. \<^verbatim>\<open>p / s\<close> restarts from \<^verbatim>\<open>s\<close> when \<^verbatim>\<open>s\<close> is
  absolute. \<^verbatim>\<open>str(p)\<close> of the empty relative path is \<^verbatim>\<open>"."\<close>.
\<close>

record path =
  anchor :: string
  segments :: "string list"

definition parse_anchor :: "string \<Rightarrow> string" where
  "parse_anchor s =
     (if take 2 s = ''//'' \<and> take 3 s \<noteq> ''///'' then ''//''
      else if take 1 s = ''/'' then ''/''
      else [])"

definition Path_of :: "string \<Rightarrow> path" where
  "Path_of s =
     \<lparr>anchor = parse_anchor s,
      segments = filter (\<lambda>n. n \<noteq> [] \<and> n \<noteq> ''.'') (split_on CHR ''/'' s)\<rparr>"

definition Path_str :: "path \<Rightarrow> string" where
  "Path_str p =
     (if anchor p = [] \<and> segments p = [] then ''.''
      else anchor p @ join_sep ''/'' (segments p))"

definition Path_join :: "path \<Rightarrow> string \<Rightarrow> path" where
  "Path_join p s =
     (let q = Path_of s
      in if anchor q \<noteq> [] then q else p\<lparr>segments := segments p @ segments q\<rparr>)"

definition parent :: "path \<Rightarrow> path" where
  "parent p = p\<lparr>segments := butlast (segments p)\<rparr>"

section \<open>File system\<close>

text \<open>
  The file system maps a path to a directory or to a file with its content; \<open>denied\<close> is
  the set of directories in which no entry may be created. Paths are compared as written:
  symbolic links and \<^verbatim>\<open>".."\<close> are not interpreted. The root and the working directory
  (the paths with no component) always exist.
\<close>

datatype 'c node = Dir | File 'c

record 'c filesystem =
  entries :: "path \<rightharpoonup> 'c node"
  denied :: "path set"

definition is_dir :: "'c filesystem \<Rightarrow> path \<Rightarrow> bool" where
  "is_dir fs p = (segments p = [] \<or> entries fs p = Some Dir)"

definition ancestors :: "path \<Rightarrow> path list" where
  "ancestors p = map (\<lambda>n. p\<lparr>segments := take n (segments p)\<rparr>) [1..<Suc (length (segments p))]"

fun walk :: "'c filesystem \<Rightarrow> path list \<Rightarrow> error option" where
  "walk fs [] = None"
| "walk fs (q # qs) =
     (case entries fs q of
        None \<Rightarrow> Some FileNotFoundError
      | Some (File c) \<Rightarrow> Some NotADirectoryError
      | Some Dir \<Rightarrow> walk fs qs)"

definition resolve_dir :: "'c filesystem \<Rightarrow> path \<Rightarrow> error option" where
  "resolve_dir fs p = walk fs (ancestors p)"

text \<open>\<^verbatim>\<open>os.mkdir(p)\<close>: the parent chain is resolved first, then the entry is created.\<close>

definition os_mkdir :: "path \<Rightarrow> 'c filesystem \<Rightarrow> (error + unit) \<times> 'c filesystem" where
  "os_mkdir p fs =
     (case resolve_dir fs (parent p) of
        Some e \<Rightarrow> (Inl e, fs)
      | None \<Rightarrow>
          if segments p = [] \<or> entries fs p \<noteq> None then (Inl FileExistsError, fs)
          else if parent p \<in> denied fs then (Inl PermissionError, fs)
          else (Inr (), fs\<lparr>entries := (entries fs)(p \<mapsto> Dir)\<rparr>))"

text \<open>
  \<^verbatim>\<open>
  def mkdir(self, mode=0o777, parents=False, exist_ok=False):
      try:
          os.mkdir(self, mode)
      except FileNotFoundError:
          if not parents or self.parent == self:
              raise
          self.parent.mkdir(parents=True, exist_ok=True)
          self.mkdir(mode, parents=False, exist_ok=exist_ok)
      except OSError:
          if not exist_ok or not self.is_dir():
              raise
  \<close>
  \<open>mkdir_single\<close> is the call with \<^verbatim>\<open>parents=False, exist_ok=True\<close> and
  \<open>mkdir_parents\<close> the call with \<^verbatim>\<open>parents=True, exist_ok=True\<close>.
\<close>

definition mkdir_single :: "path \<Rightarrow> 'c filesystem \<Rightarrow> (error + unit) \<times> 'c filesystem" where
  "mkdir_single p fs =
     (case os_mkdir p fs of
        (Inr u, fs') \<Rightarrow> (Inr u, fs')
      | (Inl e, fs') \<Rightarrow>
          if e = FileNotFoundError then (Inl e, fs')
          else if is_dir fs' p then (Inr (), fs')
          else (Inl e, fs'))"

function mkdir_parents :: "path \<Rightarrow> 'c filesystem \<Rightarrow> (error + unit) \<times> 'c filesystem" where
  "mkdir_parents p fs =
     (case os_mkdir p fs of
        (Inr u, fs') \<Rightarrow> (Inr u, fs')
      | (Inl e, fs') \<Rightarrow>
          if e = FileNotFoundError then
            (if parent p = p then (Inl e, fs')
             else (case mkdir_parents (parent p) fs' of
                     (Inl e', fs'') \<Rightarrow> (Inl e', fs'')
                   | (Inr u, fs'') \<Rightarrow> mkdir_single p fs''))
          else if is_dir fs' p then (Inr (), fs')
          else (Inl e, fs'))"
  by pat_completeness auto
termination
proof (relation "measure (\<lambda>(p, fs). length (segments p))")
  show "wf (measure (\<lambda>(p, fs). length (segments p)))" by simp
next
  fix p :: path and fs :: "'c filesystem" and x y xa
  assume "parent p \<noteq> p"
  then have "segments p \<noteq> []"
    by (auto simp: parent_def)
  then show "((parent p, y), p, fs) \<in> measure (\<lambda>(p, fs). length (segments p))"
    by (simp add: parent_def)
qed

declare mkdir_parents.simps [simp del]

text \<open>
  Modelled from the spec: \<^verbatim>\<open>dump_json\<close> of \<^verbatim>\<open>dvclive/serialize.py\<close>, which is not
  among the sources. The spec gives it one whole-file write of the serialised content to
  the resolved path, failing with the file system's error; the file's content is kept as
  the value that is serialised.
\<close>

definition dump_json :: "'c \<Rightarrow> path \<Rightarrow> 'c filesystem \<Rightarrow> (error + unit) \<times> 'c filesystem" where
  "dump_json content p fs =
     (case resolve_dir fs (parent p) of
        Some e \<Rightarrow> (Inl e, fs)
      | None \<Rightarrow>
          if is_dir fs p then (Inl IsADirectoryError, fs)
          else if entries fs p = None \<and> parent p \<in> denied fs then (Inl PermissionError, fs)
          else (Inr (), fs\<lparr>entries := (entries fs)(p \<mapsto> File content)\<rparr>))"

section \<open>Shared property dictionaries\<close>

text \<open>
  Every class has a \<^verbatim>\<open>DEFAULT_PROPERTIES\<close> dict, one mutable object shared by all its
  instances. The heap maps an address to a dict of strings; the five class dicts live at
  fixed addresses and \<open>next_addr\<close> is the next free address.
\<close>

type_synonym addr = nat
type_synonym props = "(string \<times> string) list"

record heap =
  cells :: "addr \<Rightarrow> props"
  next_addr :: addr

datatype variant = Roc | PrecisionRecall | Det | ConfusionMatrix | Calibration

fun DEFAULT_PROPERTIES :: "variant \<Rightarrow> addr" where
  "DEFAULT_PROPERTIES Roc = 0"
| "DEFAULT_PROPERTIES PrecisionRecall = 1"
| "DEFAULT_PROPERTIES Det = 2"
| "DEFAULT_PROPERTIES ConfusionMatrix = 3"
| "DEFAULT_PROPERTIES Calibration = 4"

fun default_literal :: "variant \<Rightarrow> props" where
  "default_literal Roc =
     [(''template'', ''simple''), (''x'', ''fpr''), (''y'', ''tpr''),
      (''title'', ''Receiver operating characteristic (ROC)''),
      (''x_label'', ''False Positive Rate''), (''y_label'', ''True Positive Rate'')]"
| "default_literal PrecisionRecall =
     [(''template'', ''simple''), (''x'', ''recall''), (''y'', ''precision''),
      (''title'', ''Precision-Recall Curve''),
      (''x_label'', ''Recall''), (''y_label'', ''Precision'')]"
| "default_literal Det =
     [(''template'', ''simple''), (''x'', ''fpr''), (''y'', ''fnr''),
      (''title'', ''Detection error tradeoff (DET)''),
      (''x_label'', ''False Positive Rate''), (''y_label'', ''False Negative Rate'')]"
| "default_literal ConfusionMatrix =
     [(''template'', ''confusion''), (''x'', ''actual''), (''y'', ''predicted''),
      (''title'', ''Confusion Matrix''),
      (''x_label'', ''True Label''), (''y_label'', ''Predicted Label'')]"
| "default_literal Calibration =
     [(''template'', ''simple''), (''x'', ''prob_pred''), (''y'', ''prob_true''),
      (''title'', ''Calibration Curve''),
      (''x_label'', ''Mean Predicted Probability''), (''y_label'', ''Fraction of Positives'')]"

definition class_heap :: heap where
  "class_heap =
     \<lparr>cells = (\<lambda>a. if a = 0 then default_literal Roc
                   else if a = 1 then default_literal PrecisionRecall
                   else if a = 2 then default_literal Det
                   else if a = 3 then default_literal ConfusionMatrix
                   else if a = 4 then default_literal Calibration
                   else []),
      next_addr = 5\<rparr>"

text \<open>
  \<^verbatim>\<open>copy.deepcopy(d)\<close> of a dict of strings allocates a new dict with the same items
  (strings are immutable and need no copy). The operations a caller can use to mutate a
  dict it holds are \<^verbatim>\<open>d[k] = v\<close>, \<^verbatim>\<open>del d[k]\<close> and \<^verbatim>\<open>d.clear()\<close>.
\<close>

definition deepcopy :: "addr \<Rightarrow> heap \<Rightarrow> addr \<times> heap" where
  "deepcopy a h = (next_addr h, h\<lparr>cells := (cells h)(next_addr h := cells h a), next_addr := Suc (next_addr h)\<rparr>)"

definition setitem :: "addr \<Rightarrow> string \<Rightarrow> string \<Rightarrow> heap \<Rightarrow> heap" where
  "setitem a k v h = h\<lparr>cells := (cells h)(a := AList.update k v (cells h a))\<rparr>"

definition delitem :: "addr \<Rightarrow> string \<Rightarrow> heap \<Rightarrow> heap" where
  "delitem a k h = h\<lparr>cells := (cells h)(a := AList.delete k (cells h a))\<rparr>"

definition clear :: "addr \<Rightarrow> heap \<Rightarrow> heap" where
  "clear a h = h\<lparr>cells := (cells h)(a := [])\<rparr>"

datatype mutation = SetItem string string | DelItem string | Clear

fun mutate :: "addr \<Rightarrow> mutation \<Rightarrow> heap \<Rightarrow> heap" where
  "mutate a (SetItem k v) h = setitem a k v h"
| "mutate a (DelItem k) h = delitem a k h"
| "mutate a Clear h = clear a h"

fun mutate_all :: "addr \<Rightarrow> mutation list \<Rightarrow> heap \<Rightarrow> heap" where
  "mutate_all a [] h = h"
| "mutate_all a (m # ms) h = mutate_all a ms (mutate a m h)"

section \<open>The adapters\<close>

text \<open>
  An instance carries its class, the two attributes set by the base class and, for a
  \<^verbatim>\<open>ConfusionMatrix\<close> only, the attribute \<^verbatim>\<open>normalized\<close>.
\<close>

record 'f plot =
  cls :: variant
  name :: string
  output_folder :: path
  normalized :: "'f pyval option"

definition subfolder :: string where
  "subfolder = ''sklearn''"

text \<open>
  Modelled from the spec: \<^verbatim>\<open>Data.__init__\<close> of \<^verbatim>\<open>dvclive/plots/base.py\<close>, which is
  not among the sources. The spec's layout \<^verbatim>\<open><output_folder>/<subfolder>/<name>.json\<close>
  and \<^verbatim>\<open>self.output_folder / self.name\<close> in \<^verbatim>\<open>output_path\<close> fix what it stores: the
  name as given and the path of the output folder joined with the class's subfolder.
\<close>

definition Data_init :: "variant \<Rightarrow> string \<Rightarrow> string \<Rightarrow> 'f plot" where
  "Data_init v nm folder =
     \<lparr>cls = v, name = nm, output_folder = Path_join (Path_of folder) subfolder,
      normalized = None\<rparr>"

text \<open>
  \<^verbatim>\<open>
  def __init__(self, name: str, output_folder: str, **kwargs) -> None:
      super().__init__(name, output_folder)
      self.name = self.name.replace(".json", "")
  \<close>
\<close>

definition SKLearnPlot_init :: "variant \<Rightarrow> string \<Rightarrow> string \<Rightarrow> 'f kwargs \<Rightarrow> 'f plot" where
  "SKLearnPlot_init v nm folder kw =
     (let self = Data_init v nm folder
      in self\<lparr>name := str_replace ''.json'' [] (name self)\<rparr>)"

text \<open>
  \<^verbatim>\<open>
  def __init__(self, name: str, output_folder: str, **kwargs) -> None:
      super().__init__(name, output_folder)
      self.normalized = kwargs.get("normalized") or False
  \<close>
\<close>

definition ConfusionMatrix_init :: "'f runtime \<Rightarrow> string \<Rightarrow> string \<Rightarrow> 'f kwargs \<Rightarrow> 'f plot" where
  "ConfusionMatrix_init rt nm folder kw =
     (let self = SKLearnPlot_init ConfusionMatrix nm folder []
      in self\<lparr>normalized := Some (py_or rt (kwargs_get kw ''normalized'') (PBool False))\<rparr>)"

definition new_plot :: "'f runtime \<Rightarrow> variant \<Rightarrow> string \<Rightarrow> string \<Rightarrow> 'f kwargs \<Rightarrow> 'f plot" where
  "new_plot rt v nm folder kw =
     (if v = ConfusionMatrix then ConfusionMatrix_init rt nm folder kw
      else SKLearnPlot_init v nm folder kw)"

text \<open>
  \<^verbatim>\<open>
  @property
  def output_path(self) -> Path:
      _path = Path(f"{self.output_folder / self.name}.json")
      _path.parent.mkdir(exist_ok=True, parents=True)
      return _path
  \<close>
\<close>

definition output_path :: "'f plot \<Rightarrow> 'c filesystem \<Rightarrow> (error + path) \<times> 'c filesystem" where
  "output_path self fs =
     (let p = Path_of (Path_str (Path_join (output_folder self) (name self)) @ ''.json'')
      in case mkdir_parents (parent p) fs of
           (Inl e, fs') \<Rightarrow> (Inl e, fs')
         | (Inr u, fs') \<Rightarrow> (Inr p, fs'))"

text \<open>
  \<^verbatim>\<open>
  @staticmethod
  def could_log(val: object) -> bool:
      if isinstance(val, tuple) and len(val) == 2:
          return True
      return False
  \<close>
  The function has no raising path: it is a total function to \<open>bool\<close>.
\<close>

fun could_log :: "'f pyval \<Rightarrow> bool" where
  "could_log (PTuple xs) = (if length xs = 2 then True else False)"
| "could_log _ = False"

text \<open>
  \<^verbatim>\<open>get_properties\<close>: the base class raises, four classes return
  \<^verbatim>\<open>copy.deepcopy(self.DEFAULT_PROPERTIES)\<close>, and
  \<^verbatim>\<open>
  def get_properties(self):
      properties = copy.deepcopy(self.DEFAULT_PROPERTIES)
      if self.normalized:
          properties["template"] = "confusion_normalized"
      return properties
  \<close>
  for the confusion matrix.
\<close>

definition SKLearnPlot_get_properties :: "'f plot \<Rightarrow> heap \<Rightarrow> (error + addr) \<times> heap" where
  "SKLearnPlot_get_properties self h = (Inl NotImplementedError, h)"

definition simple_get_properties :: "'f plot \<Rightarrow> heap \<Rightarrow> (error + addr) \<times> heap" where
  "simple_get_properties self h =
     (let (a, h') = deepcopy (DEFAULT_PROPERTIES (cls self)) h in (Inr a, h'))"

definition ConfusionMatrix_get_properties ::
  "'f runtime \<Rightarrow> 'f plot \<Rightarrow> heap \<Rightarrow> (error + addr) \<times> heap" where
  "ConfusionMatrix_get_properties rt self h =
     (let (properties, h1) = deepcopy (DEFAULT_PROPERTIES ConfusionMatrix) h
      in case normalized self of
           None \<Rightarrow> (Inl AttributeError, h1)
         | Some n \<Rightarrow>
             if truthy rt n
             then (Inr properties, setitem properties ''template'' ''confusion_normalized'' h1)
             else (Inr properties, h1))"

definition get_properties :: "'f runtime \<Rightarrow> 'f plot \<Rightarrow> heap \<Rightarrow> (error + addr) \<times> heap" where
  "get_properties rt self h =
     (if cls self = ConfusionMatrix then ConfusionMatrix_get_properties rt self h
      else simple_get_properties self h)"

section \<open>The external library and the dump variants\<close>

text \<open>
  The curve computations belong to scikit-learn. Each is a parameter: a function of the two
  positional values and the forwarded keyword arguments that returns its arrays or raises.
  A module that cannot be imported is \<open>None\<close>.
\<close>

type_synonym 'f curve3 = "'f pyval \<Rightarrow> 'f pyval \<Rightarrow> 'f kwargs \<Rightarrow> error + ('f list \<times> 'f list \<times> 'f list)"
type_synonym 'f curve2 = "'f pyval \<Rightarrow> 'f pyval \<Rightarrow> 'f kwargs \<Rightarrow> error + ('f list \<times> 'f list)"

record 'f metrics_module =
  roc_curve :: "'f curve3"
  precision_recall_curve :: "'f curve3"
  det_curve :: "'f curve3"

record 'f calibration_module =
  calibration_curve :: "'f curve2"

record 'f sklearn =
  metrics :: "'f metrics_module option"
  calibration :: "'f calibration_module option"

text \<open>
  \<^verbatim>\<open>f(y_true=val[0], y_score=val[1], **kwargs)\<close>: both subscripts are evaluated, then a
  keyword given twice is a \<^verbatim>\<open>TypeError\<close>, then the routine runs.
\<close>

definition kw_clash :: "string list \<Rightarrow> 'f kwargs \<Rightarrow> bool" where
  "kw_clash ks kw = list_ex (\<lambda>k. k \<in> set ks) (map fst kw)"

definition call3 ::
  "'f runtime \<Rightarrow> 'f curve3 \<Rightarrow> string list \<Rightarrow> 'f pyval \<Rightarrow> 'f kwargs
     \<Rightarrow> error + ('f list \<times> 'f list \<times> 'f list)" where
  "call3 rt f ks val kw =
     (case getitem rt val 0 of
        Inl e \<Rightarrow> Inl e
      | Inr a \<Rightarrow>
          (case getitem rt val 1 of
             Inl e \<Rightarrow> Inl e
           | Inr b \<Rightarrow> if kw_clash ks kw then Inl TypeError else f a b kw))"

definition call2 ::
  "'f runtime \<Rightarrow> 'f curve2 \<Rightarrow> string list \<Rightarrow> 'f pyval \<Rightarrow> 'f kwargs
     \<Rightarrow> error + ('f list \<times> 'f list)" where
  "call2 rt f ks val kw =
     (case getitem rt val 0 of
        Inl e \<Rightarrow> Inl e
      | Inr a \<Rightarrow>
          (case getitem rt val 1 of
             Inl e \<Rightarrow> Inl e
           | Inr b \<Rightarrow> if kw_clash ks kw then Inl TypeError else f a b kw))"

text \<open>
  \<^verbatim>\<open>
  def dump(self, val, **kwargs) -> None:
      from sklearn import metrics
      fpr, tpr, roc_thresholds = metrics.roc_curve(
          y_true=val[0], y_score=val[1], **kwargs
      )
      roc = {
          "roc": [
              {"fpr": fp, "tpr": tp, "threshold": t}
              for fp, tp, t in zip(fpr, tpr, roc_thresholds)
          ]
      }
      dump_json(roc, self.output_path)
  \<close>
  The other curve variants differ in the routine, the keys and the keyword names. The
  content is built first; \<^verbatim>\<open>self.output_path\<close> is evaluated as the argument of
  \<^verbatim>\<open>dump_json\<close>.
\<close>

definition record3 :: "string \<Rightarrow> string \<Rightarrow> string \<Rightarrow> 'f \<times> 'f \<times> 'f \<Rightarrow> 'f pyval" where
  "record3 k1 k2 k3 r =
     (case r of (a, b, c) \<Rightarrow>
        PDict [(PStr k1, PFloat a), (PStr k2, PFloat b), (PStr k3, PFloat c)])"

definition record2 :: "string \<Rightarrow> string \<Rightarrow> 'f \<times> 'f \<Rightarrow> 'f pyval" where
  "record2 k1 k2 r = (case r of (a, b) \<Rightarrow> PDict [(PStr k1, PFloat a), (PStr k2, PFloat b)])"

definition write_out ::
  "'f pyval \<Rightarrow> 'f plot \<Rightarrow> 'f pyval filesystem \<Rightarrow> (error + unit) \<times> 'f pyval filesystem" where
  "write_out content self fs =
     (case output_path self fs of
        (Inl e, fs') \<Rightarrow> (Inl e, fs')
      | (Inr p, fs') \<Rightarrow> dump_json content p fs')"

definition Roc_dump ::
  "'f runtime \<Rightarrow> 'f sklearn \<Rightarrow> 'f plot \<Rightarrow> 'f pyval \<Rightarrow> 'f kwargs \<Rightarrow> 'f pyval filesystem
     \<Rightarrow> (error + unit) \<times> 'f pyval filesystem" where
  "Roc_dump rt sk self val kw fs =
     (case metrics sk of
        None \<Rightarrow> (Inl ImportError, fs)
      | Some m \<Rightarrow>
          (case call3 rt (roc_curve m) [''y_true'', ''y_score''] val kw of
             Inl e \<Rightarrow> (Inl e, fs)
           | Inr (fpr, tpr, roc_thresholds) \<Rightarrow>
               (let roc = PDict [(PStr ''roc'',
                      PList (map (record3 ''fpr'' ''tpr'' ''threshold'')
                               (zip fpr (zip tpr roc_thresholds))))]
                in write_out roc self fs)))"

definition PrecisionRecall_dump ::
  "'f runtime \<Rightarrow> 'f sklearn \<Rightarrow> 'f plot \<Rightarrow> 'f pyval \<Rightarrow> 'f kwargs \<Rightarrow> 'f pyval filesystem
     \<Rightarrow> (error + unit) \<times> 'f pyval filesystem" where
  "PrecisionRecall_dump rt sk self val kw fs =
     (case metrics sk of
        None \<Rightarrow> (Inl ImportError, fs)
      | Some m \<Rightarrow>
          (case call3 rt (precision_recall_curve m) [''y_true'', ''probas_pred''] val kw of
             Inl e \<Rightarrow> (Inl e, fs)
           | Inr (precision, recall, prc_thresholds) \<Rightarrow>
               (let prc = PDict [(PStr ''precision_recall'',
                      PList (map (record3 ''precision'' ''recall'' ''threshold'')
                               (zip precision (zip recall prc_thresholds))))]
                in write_out prc self fs)))"

definition Det_dump ::
  "'f runtime \<Rightarrow> 'f sklearn \<Rightarrow> 'f plot \<Rightarrow> 'f pyval \<Rightarrow> 'f kwargs \<Rightarrow> 'f pyval filesystem
     \<Rightarrow> (error + unit) \<times> 'f pyval filesystem" where
  "Det_dump rt sk self val kw fs =
     (case metrics sk of
        None \<Rightarrow> (Inl ImportError, fs)
      | Some m \<Rightarrow>
          (case call3 rt (det_curve m) [''y_true'', ''y_score''] val kw of
             Inl e \<Rightarrow> (Inl e, fs)
           | Inr (fpr, fnr, roc_thresholds) \<Rightarrow>
               (let det = PDict [(PStr ''det'',
                      PList (map (record3 ''fpr'' ''fnr'' ''threshold'')
                               (zip fpr (zip fnr roc_thresholds))))]
                in write_out det self fs)))"

text \<open>
  \<^verbatim>\<open>
  def dump(self, val, **kwargs) -> None:
      cm = [
          {"actual": str(actual), "predicted": str(predicted)}
          for actual, predicted in zip(val[0], val[1])
      ]
      dump_json(cm, self.output_path)
  \<close>
\<close>

definition confusion_records ::
  "'f runtime \<Rightarrow> 'f pyval \<Rightarrow> error + 'f pyval list" where
  "confusion_records rt val =
     (case getitem rt val 0 of
        Inl e \<Rightarrow> Inl e
      | Inr a \<Rightarrow>
          (case getitem rt val 1 of
             Inl e \<Rightarrow> Inl e
           | Inr b \<Rightarrow>
               (case py_iter a of
                  Inl e \<Rightarrow> Inl e
                | Inr xs \<Rightarrow>
                    (case py_iter b of
                       Inl e \<Rightarrow> Inl e
                     | Inr ys \<Rightarrow>
                         Inr (map (\<lambda>(actual, predicted).
                                PDict [(PStr ''actual'', PStr (py_str rt actual)),
                                       (PStr ''predicted'', PStr (py_str rt predicted))])
                              (zip xs ys))))))"

definition ConfusionMatrix_dump ::
  "'f runtime \<Rightarrow> 'f plot \<Rightarrow> 'f pyval \<Rightarrow> 'f kwargs \<Rightarrow> 'f pyval filesystem
     \<Rightarrow> (error + unit) \<times> 'f pyval filesystem" where
  "ConfusionMatrix_dump rt self val kw fs =
     (case confusion_records rt val of
        Inl e \<Rightarrow> (Inl e, fs)
      | Inr cm \<Rightarrow> write_out (PList cm) self fs)"

definition Calibration_dump ::
  "'f runtime \<Rightarrow> 'f sklearn \<Rightarrow> 'f plot \<Rightarrow> 'f pyval \<Rightarrow> 'f kwargs \<Rightarrow> 'f pyval filesystem
     \<Rightarrow> (error + unit) \<times> 'f pyval filesystem" where
  "Calibration_dump rt sk self val kw fs =
     (case calibration sk of
        None \<Rightarrow> (Inl ImportError, fs)
      | Some m \<Rightarrow>
          (case call2 rt (calibration_curve m) [''y_true'', ''y_prob''] val kw of
             Inl e \<Rightarrow> (Inl e, fs)
           | Inr (prob_true, prob_pred) \<Rightarrow>
               (let cal = PDict [(PStr ''calibration'',
                      PList (map (record2 ''prob_true'' ''prob_pred'') (zip prob_true prob_pred)))]
                in write_out cal self fs)))"

definition dump ::
  "'f runtime \<Rightarrow> 'f sklearn \<Rightarrow> 'f plot \<Rightarrow> 'f pyval \<Rightarrow> 'f kwargs \<Rightarrow> 'f pyval filesystem
     \<Rightarrow> (error + unit) \<times> 'f pyval filesystem" where
  "dump rt sk self val kw fs =
     (case cls self of
        Roc \<Rightarrow> Roc_dump rt sk self val kw fs
      | PrecisionRecall \<Rightarrow> PrecisionRecall_dump rt sk self val kw fs
      | Det \<Rightarrow> Det_dump rt sk self val kw fs
      | ConfusionMatrix \<Rightarrow> ConfusionMatrix_dump rt self val kw fs
      | Calibration \<Rightarrow> Calibration_dump rt sk self val kw fs)"

section \<open>Definitions that follow the specification's words\<close>

text \<open>
  ``Removes every occurrence of the substring'': an occurrence of \<open>pat\<close> starts at index
  \<open>i\<close> of \<open>s\<close> when the characters from \<open>i\<close> on begin with \<open>pat\<close>; an index is covered
  when it lies inside some occurrence; deleting the occurrences keeps exactly the characters
  at the indices that are not covered.
\<close>

definition occurs_at :: "string \<Rightarrow> string \<Rightarrow> nat \<Rightarrow> bool" where
  "occurs_at pat s i = (take (length pat) (drop i s) = pat)"

definition covered :: "string \<Rightarrow> string \<Rightarrow> nat \<Rightarrow> bool" where
  "covered pat s j = list_ex (occurs_at pat s) [Suc j - length pat ..< Suc j]"

definition delete_occurrences :: "string \<Rightarrow> string \<Rightarrow> string" where
  "delete_occurrences pat s = map (nth s) (filter (\<lambda>j. \<not> covered pat s j) [0..<length s])"

text \<open>
  A heap is well formed when the five class dicts lie below the next free address, as
  they do once the module is loaded. An instance is constructed when a confusion matrix
  has its \<^verbatim>\<open>normalized\<close> attribute. \<open>unit_runtime\<close> is a runtime for examples, with
  the one-element type for floats.
\<close>

definition heap_ok :: "heap \<Rightarrow> bool" where
  "heap_ok h = list_all (\<lambda>v. DEFAULT_PROPERTIES v < next_addr h)
      [Roc, PrecisionRecall, Det, ConfusionMatrix, Calibration]"

definition constructed :: "'f plot \<Rightarrow> bool" where
  "constructed self = (if cls self = ConfusionMatrix then normalized self \<noteq> None else True)"

definition unit_runtime :: "unit runtime" where
  "unit_runtime = \<lparr>float_nonzero = (\<lambda>x. False), float_eq_int = (\<lambda>x i. i = 0), str_other = (\<lambda>v. ''?'')\<rparr>"

text \<open>The dict that \<open>get_properties\<close> hands out, as a function of the defaults.\<close>

definition handed_out :: "'f runtime \<Rightarrow> 'f plot \<Rightarrow> props \<Rightarrow> props" where
  "handed_out rt self d =
     (if cls self = ConfusionMatrix \<and> (case normalized self of None \<Rightarrow> False | Some n \<Rightarrow> truthy rt n)
      then AList.update ''template'' ''confusion_normalized'' d else d)"

text \<open>
  For examples: the file system with no entry, and a library whose every routine raises.
\<close>

definition empty_fs :: "'c filesystem" where
  "empty_fs = \<lparr>entries = Map.empty, denied = {}\<rparr>"

definition failing_curve3 :: "'f curve3" where
  "failing_curve3 a b kw = Inl (OtherError ''ValueError'')"

definition failing_curve2 :: "'f curve2" where
  "failing_curve2 a b kw = Inl (OtherError ''ValueError'')"

definition failing_sklearn :: "'f sklearn" where
  "failing_sklearn =
     \<lparr>metrics = Some \<lparr>roc_curve = failing_curve3, precision_recall_curve = failing_curve3,
                       det_curve = failing_curve3\<rparr>,
      calibration = Some \<lparr>calibration_curve = failing_curve2\<rparr>\<rparr>"

text \<open>
  ``A redundant \<^verbatim>\<open>.json\<close> extension'': a name is free of the extension when no index of
  it starts an occurrence of the pattern.
\<close>

definition has_occurrence :: "string \<Rightarrow> string \<Rightarrow> bool" where
  "has_occurrence pat s = list_ex (occurs_at pat s) [0..<Suc (length s)]"

text \<open>
  The path that \<open>output_path\<close> computes before it creates the directories, as a function
  of the instance alone.
\<close>

definition resolved_path :: "'f plot \<Rightarrow> path" where
  "resolved_path self = Path_of (Path_str (Path_join (output_folder self) (name self)) @ ''.json'')"

text \<open>
  A file system admits a dump to \<open>p\<close> when nothing forbids it: no directory is write
  protected, no regular file stands where a directory of the chain is needed, and \<open>p\<close>
  itself is not a directory. None of the directories has to exist. \<open>with_dirs\<close> is
  what creating the chain of \<open>p\<close> leaves behind and \<open>written\<close> the file system after
  a successful dump of \<open>c\<close> to \<open>p\<close>.
\<close>

definition no_file_at :: "'c filesystem \<Rightarrow> path \<Rightarrow> bool" where
  "no_file_at fs q = (case entries fs q of Some (File c) \<Rightarrow> False | _ \<Rightarrow> True)"

definition admits :: "'c filesystem \<Rightarrow> path \<Rightarrow> bool" where
  "admits fs p =
     (denied fs = {} \<and> list_all (no_file_at fs) (ancestors (parent p))
      \<and> entries fs p \<noteq> Some Dir \<and> segments p \<noteq> [])"

definition with_dirs :: "'c filesystem \<Rightarrow> path \<Rightarrow> 'c filesystem" where
  "with_dirs fs p =
     fs\<lparr>entries := (\<lambda>q. if q \<in> set (ancestors p) then Some Dir else entries fs q)\<rparr>"

definition written :: "'c filesystem \<Rightarrow> path \<Rightarrow> 'c \<Rightarrow> 'c filesystem" where
  "written fs p c = (with_dirs fs (parent p))\<lparr>entries := (entries (with_dirs fs (parent p)))(p \<mapsto> File c)\<rparr>"

text \<open>
  ``Lies under'': \<open>p\<close> has the root of \<open>d\<close> and its components extend those of \<open>d\<close>
  by at least one. A parsed path is well formed when its root is one of the three roots
  and no component is empty, a dot or contains a slash.
\<close>

definition lies_under :: "path \<Rightarrow> path \<Rightarrow> bool" where
  "lies_under p d = (anchor p = anchor d \<and> strict_prefix (segments d) (segments p))"

definition wf_path :: "path \<Rightarrow> bool" where
  "wf_path p =
     (anchor p \<in> set [[], ''/'', ''//'']
      \<and> list_all (\<lambda>s. s \<noteq> [] \<and> s \<noteq> ''.'' \<and> CHR ''/'' \<notin> set s) (segments p))"

text \<open>
  For examples: a library whose ROC routine returns five points whatever it is given,
  with rational numbers for floats, and the label lists of the confusion-matrix example
  with the document expected for them. \<open>confusion_row\<close> is one record of a confusion
  matrix.
\<close>

definition example_roc :: "rat curve3" where
  "example_roc y_true y_score kw =
     Inr ([0, 0, 1/2, 1/2, 1], [0, 1/2, 1/2, 1, 1], [9/5, 4/5, 2/5, 7/20, 1/10])"

definition example_sklearn :: "rat sklearn" where
  "example_sklearn =
     \<lparr>metrics = Some \<lparr>roc_curve = example_roc, precision_recall_curve = failing_curve3,
                       det_curve = failing_curve3\<rparr>,
      calibration = None\<rparr>"

definition rat_runtime :: "rat runtime" where
  "rat_runtime = \<lparr>float_nonzero = (\<lambda>x. x \<noteq> 0), float_eq_int = (\<lambda>x i. x = of_int i),
                   str_other = (\<lambda>v. ''?'')\<rparr>"

definition cat_dog :: "'f pyval" where
  "cat_dog = PTuple [PList [PStr ''cat'', PStr ''dog''], PList [PStr ''cat'', PStr ''cat'']]"

definition cat_dog_json :: "'f pyval" where
  "cat_dog_json =
     PList [PDict [(PStr ''actual'', PStr ''cat''), (PStr ''predicted'', PStr ''cat'')],
            PDict [(PStr ''actual'', PStr ''dog''), (PStr ''predicted'', PStr ''cat'')]]"

definition confusion_row :: "'f runtime \<Rightarrow> 'f pyval \<times> 'f pyval \<Rightarrow> 'f pyval" where
  "confusion_row rt r =
     (case r of (actual, predicted) \<Rightarrow>
        PDict [(PStr ''actual'', PStr (py_str rt actual)),
               (PStr ''predicted'', PStr (py_str rt predicted))])"

section \<open>Properties of the capability check\<close>

lemma length_two_iff: "length xs = 2 \<longleftrightarrow> (\<exists>a b. xs = [a, b])"
proof
  assume "length xs = 2"
  then obtain a ys where xs: "xs = a # ys" and "length ys = 1"
    by (cases xs) auto
  then obtain b where "ys = [b]"
    by (cases ys) auto
  with xs show "\<exists>a b. xs = [a, b]" by blast
next
  assume "\<exists>a b. xs = [a, b]"
  then show "length xs = 2" by auto
qed

text \<open>
  Claim C1. \<open>could_log x\<close> is true exactly when \<open>x\<close> is a tuple of two elements; on
  a tuple of one or of three elements, a list, a dict and every scalar it is false. As a
  total boolean function it never raises.
\<close>

theorem could_log_iff_pair:
  "(could_log x \<longleftrightarrow> (\<exists>a b. x = PTuple [a, b]))
   \<and> could_log (PTuple [a]) = False
   \<and> could_log (PTuple [a, b, c]) = False
   \<and> could_log (PList xs) = False
   \<and> could_log (PDict kvs) = False
   \<and> could_log PNone = False
   \<and> could_log (PBool t) = False
   \<and> could_log (PInt i) = False
   \<and> could_log (PFloat r) = False
   \<and> could_log (PStr s) = False"
proof -
  have "could_log x \<longleftrightarrow> (\<exists>a b. x = PTuple [a, b])"
    by (cases x) (simp_all add: length_two_iff)
  then show ?thesis by simp
qed


section \<open>Name normalization\<close>

lemma replace_json_Nil: "str_replace ''.json'' [] [] = []"
  by simp

lemma replace_json_hit: "str_replace ''.json'' [] (''.json'' @ r) = str_replace ''.json'' [] r"
  by simp

lemma replace_json_miss:
  "\<not> prefix ''.json'' (c # cs) \<Longrightarrow> str_replace ''.json'' [] (c # cs) = c # str_replace ''.json'' [] cs"
  by auto

lemma json_not_prefix_ext:
  "\<not> prefix ''.json'' (c # cs) \<Longrightarrow> \<not> prefix ''.json'' ((c # cs) @ ''.json'' @ b)"
proof (cases cs)
  case Nil then show ?thesis by simp
next
  case c1: (Cons x1 r1)
  assume np: "\<not> prefix ''.json'' (c # cs)"
  show ?thesis
  proof (cases r1)
    case Nil then show ?thesis using c1 by simp
  next
    case c2: (Cons x2 r2)
    show ?thesis
    proof (cases r2)
      case Nil then show ?thesis using c1 c2 by simp
    next
      case c3: (Cons x3 r3)
      show ?thesis
      proof (cases r3)
        case Nil then show ?thesis using c1 c2 c3 by simp
      next
        case (Cons x4 r4) then show ?thesis using np c1 c2 c3 by simp
      qed
    qed
  qed
qed

lemma replace_json_append:
  "str_replace ''.json'' [] (a @ ''.json'' @ b) = str_replace ''.json'' [] a @ str_replace ''.json'' [] b"
proof (induction a rule: length_induct)
  case (1 a)
  show ?case
  proof (cases a)
    case Nil
    then show ?thesis by simp
  next
    case (Cons c cs)
    show ?thesis
    proof (cases "prefix ''.json'' (c # cs)")
      case True
      then obtain r where r: "c # cs = ''.json'' @ r"
        by (auto simp: prefix_def)
      then have "length r < length a" using Cons by simp
      with 1 have IH: "str_replace ''.json'' [] (r @ ''.json'' @ b) = str_replace ''.json'' [] r @ str_replace ''.json'' [] b"
        by blast
      have "a @ ''.json'' @ b = ''.json'' @ (r @ ''.json'' @ b)"
        using r Cons by simp
      then have "str_replace ''.json'' [] (a @ ''.json'' @ b) = str_replace ''.json'' [] (r @ ''.json'' @ b)"
        by (simp only: replace_json_hit)
      moreover have "str_replace ''.json'' [] a = str_replace ''.json'' [] r"
        using r Cons by (simp only: replace_json_hit)
      ultimately show ?thesis using IH by simp
    next
      case False
      then have "\<not> prefix ''.json'' ((c # cs) @ ''.json'' @ b)"
        by (rule json_not_prefix_ext)
      then have "\<not> prefix ''.json'' (c # (cs @ ''.json'' @ b))" by simp
      then have "str_replace ''.json'' [] (c # (cs @ ''.json'' @ b)) = c # str_replace ''.json'' [] (cs @ ''.json'' @ b)"
        by (rule replace_json_miss)
      moreover have "str_replace ''.json'' [] (cs @ ''.json'' @ b) = str_replace ''.json'' [] cs @ str_replace ''.json'' [] b"
        using 1 Cons by simp
      moreover have "str_replace ''.json'' [] (c # cs) = c # str_replace ''.json'' [] cs"
        using False by (rule replace_json_miss)
      ultimately show ?thesis using Cons by simp
    qed
  qed
qed

lemma covered_iff:
  "covered pat s j \<longleftrightarrow> (\<exists>i. i \<le> j \<and> j < i + length pat \<and> occurs_at pat s i)"
proof -
  have "\<And>i. (Suc j - length pat \<le> i \<and> i < Suc j) = (i \<le> j \<and> j < i + length pat)"
    by arith
  then show ?thesis
    unfolding covered_def list_ex_iff Bex_def set_upt atLeastLessThan_iff
    by (simp add: conj_assoc)
qed

lemma occurs_at_Suc: "occurs_at pat (c # cs) (Suc i) = occurs_at pat cs i"
  by (simp add: occurs_at_def)

lemma occurs_at_0: "occurs_at pat s 0 = prefix pat s"
proof
  assume "occurs_at pat s 0"
  then have "take (length pat) s = pat" by (simp add: occurs_at_def)
  then have "s = pat @ drop (length pat) s" by (metis append_take_drop_id)
  then show "prefix pat s" unfolding prefix_def by blast
next
  assume "prefix pat s"
  then show "occurs_at pat s 0" by (auto simp: occurs_at_def prefix_def)
qed

lemma covered_miss_0: "\<not> occurs_at pat (c # cs) 0 \<Longrightarrow> \<not> covered pat (c # cs) 0"
  by (simp add: covered_iff)

lemma covered_miss_Suc:
  assumes "\<not> occurs_at pat (c # cs) 0"
  shows "covered pat (c # cs) (Suc j) = covered pat cs j"
proof
  assume "covered pat (c # cs) (Suc j)"
  then obtain i where i: "i \<le> Suc j" "Suc j < i + length pat" "occurs_at pat (c # cs) i"
    by (auto simp: covered_iff)
  with assms obtain i' where "i = Suc i'" by (cases i) auto
  with i show "covered pat cs j"
    by (auto simp: covered_iff occurs_at_Suc)
next
  assume "covered pat cs j"
  then obtain i where "i \<le> j" "j < i + length pat" "occurs_at pat cs i"
    by (auto simp: covered_iff)
  then have "Suc i \<le> Suc j \<and> Suc j < Suc i + length pat \<and> occurs_at pat (c # cs) (Suc i)"
    by (simp add: occurs_at_Suc)
  then show "covered pat (c # cs) (Suc j)"
    unfolding covered_iff by blast
qed

lemma delete_occurrences_miss:
  assumes "\<not> occurs_at pat (c # cs) 0"
  shows "delete_occurrences pat (c # cs) = c # delete_occurrences pat cs"
proof -
  have upt: "[0..<length (c # cs)] = 0 # map Suc [0..<length cs]"
    by (simp add: upt_conv_Cons map_Suc_upt del: upt_Suc)
  have "filter (\<lambda>j. \<not> covered pat (c # cs) j) (map Suc [0..<length cs])
        = map Suc (filter (\<lambda>j. \<not> covered pat cs j) [0..<length cs])"
    using assms by (simp add: filter_map comp_def covered_miss_Suc)
  then show ?thesis
    unfolding delete_occurrences_def upt
    using covered_miss_0[OF assms] by (simp add: comp_def)
qed

lemma occurs_at_shift: "occurs_at pat (a @ r) (length a + i) = occurs_at pat r i"
  by (simp add: occurs_at_def)

lemma covered_hit_low: "j < length pat \<Longrightarrow> covered pat (pat @ r) j"
  unfolding covered_iff by (rule exI[of _ 0]) (simp add: occurs_at_def)

lemma covered_hit_high:
  assumes inner: "\<And>i. 0 < i \<Longrightarrow> i < length pat \<Longrightarrow> \<not> occurs_at pat (pat @ r) i"
  shows "covered pat (pat @ r) (length pat + j) = covered pat r j"
proof
  assume "covered pat (pat @ r) (length pat + j)"
  then obtain i where i: "i \<le> length pat + j" "length pat + j < i + length pat"
      "occurs_at pat (pat @ r) i"
    by (auto simp: covered_iff)
  have "0 < i" using i(2) by simp
  then have "\<not> i < length pat" using inner i(3) by blast
  then have i': "i = length pat + (i - length pat)" by simp
  then have "occurs_at pat (pat @ r) (length pat + (i - length pat))" using i(3) by simp
  then have "occurs_at pat r (i - length pat)" by (simp only: occurs_at_shift)
  moreover have "i - length pat \<le> j" "j < (i - length pat) + length pat" using i i' by arith+
  ultimately show "covered pat r j"
    unfolding covered_iff by blast
next
  assume "covered pat r j"
  then obtain i where i: "i \<le> j" "j < i + length pat" "occurs_at pat r i"
    by (auto simp: covered_iff)
  have "occurs_at pat (pat @ r) (length pat + i)"
    using i(3) by (simp only: occurs_at_shift)
  moreover have "length pat + i \<le> length pat + j" "length pat + j < (length pat + i) + length pat"
    using i by arith+
  ultimately show "covered pat (pat @ r) (length pat + j)"
    unfolding covered_iff by blast
qed

lemma delete_occurrences_hit_gen:
  assumes inner: "\<And>i. 0 < i \<Longrightarrow> i < length pat \<Longrightarrow> \<not> occurs_at pat (pat @ r) i"
  shows "delete_occurrences pat (pat @ r) = delete_occurrences pat r"
proof -
  let ?n = "length pat"
  have len: "length (pat @ r) = ?n + length r" by simp
  have "[0..<?n + length r] = [0..<?n] @ [?n..<?n + length r]"
    by (rule upt_add_eq_append) simp
  moreover have "[?n..<?n + length r] = map (\<lambda>j. ?n + j) [0..<length r]"
    by (simp add: map_add_upt add.commute)
  ultimately have upt: "[0..<length (pat @ r)] = [0..<?n] @ map (\<lambda>j. ?n + j) [0..<length r]"
    by (simp only: len)
  have low: "filter (\<lambda>j. \<not> covered pat (pat @ r) j) [0..<?n] = []"
    by (simp add: filter_empty_conv covered_hit_low del: upt_Suc)
  have high: "filter (\<lambda>j. \<not> covered pat (pat @ r) j) (map (\<lambda>j. ?n + j) [0..<length r])
        = map (\<lambda>j. ?n + j) (filter (\<lambda>j. \<not> covered pat r j) [0..<length r])"
    by (simp add: filter_map comp_def covered_hit_high[OF inner])
  have nth: "\<And>j. (pat @ r) ! (?n + j) = r ! j"
    by (simp add: nth_append)
  show ?thesis
    unfolding delete_occurrences_def upt filter_append low high
    by (simp add: comp_def nth del: upt_Suc)
qed

lemma json_no_inner:
  assumes "0 < i" "i < length ''.json''"
  shows "\<not> occurs_at ''.json'' (''.json'' @ r) i"
proof -
  from assms consider "i = 1" | "i = 2" | "i = 3" | "i = 4" by (simp; arith)
  then show ?thesis
    by cases (simp_all add: occurs_at_def numeral_2_eq_2 numeral_3_eq_3 eval_nat_numeral)
qed

lemma delete_occurrences_hit:
  "delete_occurrences ''.json'' (''.json'' @ r) = delete_occurrences ''.json'' r"
  by (rule delete_occurrences_hit_gen) (rule json_no_inner)

lemma replace_json_refines:
  "str_replace ''.json'' [] s = delete_occurrences ''.json'' s"
proof (induction s rule: length_induct)
  case (1 s)
  show ?case
  proof (cases s)
    case Nil
    then show ?thesis by (simp add: delete_occurrences_def)
  next
    case (Cons c cs)
    show ?thesis
    proof (cases "prefix ''.json'' (c # cs)")
      case True
      then obtain r where r: "c # cs = ''.json'' @ r"
        by (auto simp: prefix_def)
      then have "length r < length s" using Cons by simp
      with 1 have "str_replace ''.json'' [] r = delete_occurrences ''.json'' r" by blast
      then show ?thesis
        unfolding Cons r by (simp only: replace_json_hit delete_occurrences_hit)
    next
      case False
      then have "\<not> occurs_at ''.json'' (c # cs) 0" by (simp only: occurs_at_0 not_False_eq_True)
      then have "delete_occurrences ''.json'' (c # cs) = c # delete_occurrences ''.json'' cs"
        by (rule delete_occurrences_miss)
      moreover have "str_replace ''.json'' [] (c # cs) = c # str_replace ''.json'' [] cs"
        using False by (rule replace_json_miss)
      moreover have "str_replace ''.json'' [] cs = delete_occurrences ''.json'' cs"
        using 1 Cons by simp
      ultimately show ?thesis using Cons by simp
    qed
  qed
qed

text \<open>
  Claim C9. The stored name is the supplied name with every occurrence of \<^verbatim>\<open>.json\<close>
  deleted, wherever it stands: \<^verbatim>\<open>a.json_b\<close> gives the adapter and the output path of
  \<^verbatim>\<open>a_b\<close>, and \<^verbatim>\<open>foo.json.json\<close> those of \<^verbatim>\<open>foo\<close>.
\<close>

theorem name_normalization_deletes_occurrences:
  "name (new_plot rt v nm folder kw) = delete_occurrences ''.json'' nm
   \<and> new_plot rt v ''a.json_b'' folder kw = new_plot rt v ''a_b'' folder kw
   \<and> output_path (new_plot rt v ''a.json_b'' folder kw) fs
       = output_path (new_plot rt v ''a_b'' folder kw) fs
   \<and> new_plot rt v ''foo.json.json'' folder kw = new_plot rt v ''foo'' folder kw
   \<and> output_path (new_plot rt v ''foo.json.json'' folder kw) fs
       = output_path (new_plot rt v ''foo'' folder kw) fs"
proof -
  have "name (new_plot rt v nm folder kw) = str_replace ''.json'' [] nm"
    by (simp add: new_plot_def ConfusionMatrix_init_def SKLearnPlot_init_def Data_init_def)
  then have gen: "name (new_plot rt v nm folder kw) = delete_occurrences ''.json'' nm"
    by (simp only: replace_json_refines)
  have ab: "new_plot rt v ''a.json_b'' folder kw = new_plot rt v ''a_b'' folder kw"
    by (simp add: new_plot_def ConfusionMatrix_init_def SKLearnPlot_init_def Data_init_def)
  have foo: "new_plot rt v ''foo.json.json'' folder kw = new_plot rt v ''foo'' folder kw"
    by (simp add: new_plot_def ConfusionMatrix_init_def SKLearnPlot_init_def Data_init_def)
  show ?thesis using gen by (simp only: ab foo simp_thms)
qed

section \<open>Property dictionaries\<close>

lemma heap_ok_default: "heap_ok h \<Longrightarrow> DEFAULT_PROPERTIES v < next_addr h"
  by (cases v) (simp_all add: heap_ok_def)

lemma constructed_new_plot: "constructed (new_plot rt v nm folder kw)"
  by (simp add: constructed_def new_plot_def ConfusionMatrix_init_def SKLearnPlot_init_def Data_init_def)

lemma cls_new_plot: "cls (new_plot rt v nm folder kw) = v"
  by (simp add: new_plot_def ConfusionMatrix_init_def SKLearnPlot_init_def Data_init_def)

lemma normalized_new_plot:
  "normalized (new_plot rt ConfusionMatrix nm folder kw)
     = Some (py_or rt (kwargs_get kw ''normalized'') (PBool False))"
  by (simp add: new_plot_def ConfusionMatrix_init_def SKLearnPlot_init_def Data_init_def)

lemma get_properties_result:
  assumes "constructed self"
  shows "get_properties rt self h =
     (Inr (next_addr h),
      h\<lparr>cells := (cells h)(next_addr h := handed_out rt self (cells h (DEFAULT_PROPERTIES (cls self)))),
        next_addr := Suc (next_addr h)\<rparr>)"
proof (cases "cls self = ConfusionMatrix")
  case True
  with assms obtain n where n: "normalized self = Some n"
    by (auto simp: constructed_def)
  show ?thesis
    using True n
    by (simp add: get_properties_def ConfusionMatrix_get_properties_def deepcopy_def
        setitem_def handed_out_def)
next
  case False
  then show ?thesis
    by (simp add: get_properties_def simple_get_properties_def deepcopy_def handed_out_def)
qed

lemma mutate_top: "next_addr (mutate a m h) = next_addr h"
  by (cases m) (simp_all add: setitem_def delitem_def clear_def)

lemma mutate_other: "b \<noteq> a \<Longrightarrow> cells (mutate a m h) b = cells h b"
  by (cases m) (simp_all add: setitem_def delitem_def clear_def)

lemma mutate_all_top: "next_addr (mutate_all a ms h) = next_addr h"
  by (induction ms arbitrary: h) (simp_all add: mutate_top)

lemma mutate_all_other: "b \<noteq> a \<Longrightarrow> cells (mutate_all a ms h) b = cells h b"
  by (induction ms arbitrary: h) (simp_all add: mutate_other)

lemma truthy_or_False: "truthy rt (py_or rt x (PBool False)) = truthy rt x"
  by (simp add: py_or_def)

lemma handed_out_new_plot:
  "handed_out rt (new_plot rt v nm folder kw) d =
     (if v = ConfusionMatrix \<and> truthy rt (kwargs_get kw ''normalized'')
      then AList.update ''template'' ''confusion_normalized'' d else d)"
  by (cases "v = ConfusionMatrix")
    (simp_all add: handed_out_def cls_new_plot normalized_new_plot truthy_or_False)

lemma get_properties_new_plot:
  "get_properties rt (new_plot rt v nm folder kw) h =
     (Inr (next_addr h),
      h\<lparr>cells := (cells h)(next_addr h :=
            (if v = ConfusionMatrix \<and> truthy rt (kwargs_get kw ''normalized'')
             then AList.update ''template'' ''confusion_normalized'' (cells h (DEFAULT_PROPERTIES v))
             else cells h (DEFAULT_PROPERTIES v))),
        next_addr := Suc (next_addr h)\<rparr>)"
  by (simp only: get_properties_result[OF constructed_new_plot] handed_out_new_plot cls_new_plot)

text \<open>
  Claim C7. On a well-formed heap \<open>get_properties\<close> of every variant returns a dict at a
  fresh address, different from every class's \<^verbatim>\<open>DEFAULT_PROPERTIES\<close>, holding the
  class defaults (with the template replaced for a normalized confusion matrix). The
  defaults are unchanged by the call and by any sequence of mutations of the returned
  dict, and a later call returns another fresh dict with the contents the first call
  returned, whatever was done to the first in between.
\<close>

theorem get_properties_fresh_copy:
  assumes ok: "heap_ok h"
  shows "\<exists>a h1. get_properties rt (new_plot rt v nm folder kw) h = (Inr a, h1)
    \<and> a = next_addr h
    \<and> cells h1 a =
        (if v = ConfusionMatrix \<and> truthy rt (kwargs_get kw ''normalized'')
         then AList.update ''template'' ''confusion_normalized'' (cells h (DEFAULT_PROPERTIES v))
         else cells h (DEFAULT_PROPERTIES v))
    \<and> (\<forall>w. a \<noteq> DEFAULT_PROPERTIES w \<and> cells h1 (DEFAULT_PROPERTIES w) = cells h (DEFAULT_PROPERTIES w))
    \<and> (\<forall>ms w. cells (mutate_all a ms h1) (DEFAULT_PROPERTIES w) = cells h (DEFAULT_PROPERTIES w))
    \<and> (\<forall>ms. \<exists>b h2. get_properties rt (new_plot rt v nm folder kw) (mutate_all a ms h1) = (Inr b, h2)
           \<and> b \<noteq> a \<and> cells h2 b = cells h1 a
           \<and> cells h2 a = cells (mutate_all a ms h1) a)"
proof -
  let ?self = "new_plot rt v nm folder kw"
  let ?d = "DEFAULT_PROPERTIES v"
  let ?out = "\<lambda>d. if v = ConfusionMatrix \<and> truthy rt (kwargs_get kw ''normalized'')
         then AList.update ''template'' ''confusion_normalized'' d else d"
  let ?a = "next_addr h"
  let ?h1 = "h\<lparr>cells := (cells h)(?a := ?out (cells h ?d)), next_addr := Suc ?a\<rparr>"
  have lt: "\<And>w. DEFAULT_PROPERTIES w < next_addr h" using ok by (rule heap_ok_default)
  have ne: "\<And>w. DEFAULT_PROPERTIES w \<noteq> ?a" using lt by (simp add: less_imp_neq)
  have g1: "get_properties rt ?self h = (Inr ?a, ?h1)"
    by (simp only: get_properties_new_plot)
  have cells1a: "cells ?h1 ?a = ?out (cells h ?d)"
    by simp
  have cells1d: "\<And>w. cells ?h1 (DEFAULT_PROPERTIES w) = cells h (DEFAULT_PROPERTIES w)"
    using ne by simp
  have cellsmd: "cells (mutate_all ?a ms ?h1) (DEFAULT_PROPERTIES w) = cells h (DEFAULT_PROPERTIES w)"
    for ms w
  proof -
    have "cells (mutate_all ?a ms ?h1) (DEFAULT_PROPERTIES w) = cells ?h1 (DEFAULT_PROPERTIES w)"
      by (rule mutate_all_other) (rule ne)
    then show ?thesis by (simp only: cells1d)
  qed
  have again: "\<exists>b h2. get_properties rt ?self (mutate_all ?a ms ?h1) = (Inr b, h2)
           \<and> b \<noteq> ?a \<and> cells h2 b = cells ?h1 ?a
           \<and> cells h2 ?a = cells (mutate_all ?a ms ?h1) ?a" for ms
  proof -
    let ?hm = "mutate_all ?a ms ?h1"
    let ?b = "next_addr ?hm"
    let ?h2 = "?hm\<lparr>cells := (cells ?hm)(?b := ?out (cells ?hm ?d)), next_addr := Suc ?b\<rparr>"
    have topm: "?b = Suc ?a" by (simp add: mutate_all_top)
    then have ba: "?b \<noteq> ?a" by simp
    have g2: "get_properties rt ?self ?hm = (Inr ?b, ?h2)"
      by (simp only: get_properties_new_plot)
    have "cells ?h2 ?b = ?out (cells ?hm ?d)" by simp
    then have c2b: "cells ?h2 ?b = cells ?h1 ?a"
      by (simp only: cellsmd cells1a)
    have c2a: "cells ?h2 ?a = cells ?hm ?a"
      using ba by simp
    show ?thesis using g2 ba c2b c2a by blast
  qed
  show ?thesis
    apply (rule exI[of _ ?a])
    apply (rule exI[of _ ?h1])
    apply (intro conjI allI)
    subgoal by (rule g1)
    subgoal by (rule refl)
    subgoal by (rule cells1a)
    subgoal by (rule not_sym) (rule ne)
    subgoal by (rule cells1d)
    subgoal by (rule cellsmd)
    subgoal by (rule again)
    done
qed

lemma heap_ok_class_heap: "heap_ok class_heap"
  by (simp add: heap_ok_def class_heap_def)

theorem get_properties_fresh_copy_witness:
  "heap_ok class_heap
   \<and> (\<exists>a h1. get_properties unit_runtime
          (new_plot unit_runtime ConfusionMatrix ''cm'' ''out'' [(''normalized'', PBool True)]) class_heap
          = (Inr a, h1)
       \<and> a = 5
       \<and> map_of (cells h1 a) ''template'' = Some ''confusion_normalized''
       \<and> cells (mutate_all a [SetItem ''title'' ''mine'', DelItem ''x'', Clear] h1)
            (DEFAULT_PROPERTIES ConfusionMatrix) = default_literal ConfusionMatrix
       \<and> (\<exists>b h2. get_properties unit_runtime
              (new_plot unit_runtime ConfusionMatrix ''cm'' ''out'' [(''normalized'', PBool True)])
              (mutate_all a [SetItem ''title'' ''mine'', DelItem ''x'', Clear] h1) = (Inr b, h2)
            \<and> b \<noteq> a \<and> cells h2 b = cells h1 a
            \<and> map_of (cells h2 b) ''title'' = Some ''Confusion Matrix''
            \<and> cells h2 a = []))"
proof -
  let ?self = "new_plot unit_runtime ConfusionMatrix ''cm'' ''out'' [(''normalized'', PBool True)]"
  let ?ms = "[SetItem ''title'' ''mine'', DelItem ''x'', Clear]"
  from get_properties_fresh_copy[OF heap_ok_class_heap, of unit_runtime ConfusionMatrix "''cm''" "''out''"
      "[(''normalized'', PBool True)]"]
  obtain a h1 where g: "get_properties unit_runtime ?self class_heap = (Inr a, h1)"
    and a: "a = next_addr class_heap"
    and c: "cells h1 a = AList.update ''template'' ''confusion_normalized''
              (cells class_heap (DEFAULT_PROPERTIES ConfusionMatrix))"
    and d: "\<And>ms w. cells (mutate_all a ms h1) (DEFAULT_PROPERTIES w) = cells class_heap (DEFAULT_PROPERTIES w)"
    and n: "\<And>ms. \<exists>b h2. get_properties unit_runtime ?self (mutate_all a ms h1) = (Inr b, h2)
           \<and> b \<noteq> a \<and> cells h2 b = cells h1 a \<and> cells h2 a = cells (mutate_all a ms h1) a"
    by (auto simp: kwargs_get_def)
  from n[of ?ms] obtain b h2 where
    g2: "get_properties unit_runtime ?self (mutate_all a ?ms h1) = (Inr b, h2)"
    and b: "b \<noteq> a" "cells h2 b = cells h1 a" "cells h2 a = cells (mutate_all a ?ms h1) a"
    by blast
  have a5: "a = 5" using a by (simp add: class_heap_def)
  have t: "map_of (cells h1 a) ''template'' = Some ''confusion_normalized''"
    by (simp add: c class_heap_def)
  have ti: "map_of (cells h1 a) ''title'' = Some ''Confusion Matrix''"
    by (simp add: c class_heap_def)
  have dd: "cells (mutate_all a ?ms h1) (DEFAULT_PROPERTIES ConfusionMatrix) = default_literal ConfusionMatrix"
    by (simp only: d) (simp add: class_heap_def)
  have e: "cells (mutate_all a ?ms h1) a = []"
    by (simp add: setitem_def delitem_def clear_def)
  show ?thesis
    using heap_ok_class_heap g a5 t dd g2 b ti e by auto
qed


text \<open>
  Claim C4. With the class defaults as the class body defines them, a confusion matrix
  constructed with \<^verbatim>\<open>normalized=True\<close> gets the template \<^verbatim>\<open>confusion_normalized\<close>;
  constructed with \<^verbatim>\<open>normalized=False\<close> or without the flag it gets \<^verbatim>\<open>confusion\<close>;
  every other key has the same value in both, and the keys are the same.
\<close>

theorem confusion_matrix_template:
  assumes d: "cells h (DEFAULT_PROPERTIES ConfusionMatrix) = default_literal ConfusionMatrix"
  shows "\<exists>aT hT aF hF aN hN.
      get_properties rt (new_plot rt ConfusionMatrix nm folder [(''normalized'', PBool True)]) h
        = (Inr aT, hT)
    \<and> get_properties rt (new_plot rt ConfusionMatrix nm folder [(''normalized'', PBool False)]) h
        = (Inr aF, hF)
    \<and> get_properties rt (new_plot rt ConfusionMatrix nm folder []) h = (Inr aN, hN)
    \<and> map_of (cells hT aT) ''template'' = Some ''confusion_normalized''
    \<and> map_of (cells hF aF) ''template'' = Some ''confusion''
    \<and> map_of (cells hN aN) ''template'' = Some ''confusion''
    \<and> (\<forall>k. k \<noteq> ''template'' \<longrightarrow> map_of (cells hT aT) k = map_of (cells hF aF) k)
    \<and> map fst (cells hT aT) = map fst (cells hF aF)
    \<and> cells hN aN = cells hF aF"
proof -
  let ?a = "next_addr h"
  let ?lit = "cells h (DEFAULT_PROPERTIES ConfusionMatrix)"
  let ?hT = "h\<lparr>cells := (cells h)(?a := AList.update ''template'' ''confusion_normalized'' ?lit),
                next_addr := Suc ?a\<rparr>"
  let ?hF = "h\<lparr>cells := (cells h)(?a := ?lit), next_addr := Suc ?a\<rparr>"
  have kT: "truthy rt (kwargs_get [(''normalized'', PBool True)] ''normalized'')"
    by (simp add: kwargs_get_def)
  have kF: "\<not> truthy rt (kwargs_get [(''normalized'', PBool False)] ''normalized'')"
    by (simp add: kwargs_get_def)
  have kN: "\<not> truthy rt (kwargs_get [] ''normalized'')"
    by (simp add: kwargs_get_def)
  have gT: "get_properties rt (new_plot rt ConfusionMatrix nm folder [(''normalized'', PBool True)]) h
        = (Inr ?a, ?hT)"
    using kT by (simp only: get_properties_new_plot simp_thms if_True)
  have gF: "get_properties rt (new_plot rt ConfusionMatrix nm folder [(''normalized'', PBool False)]) h
        = (Inr ?a, ?hF)"
    using kF by (simp only: get_properties_new_plot simp_thms if_False)
  have gN: "get_properties rt (new_plot rt ConfusionMatrix nm folder []) h = (Inr ?a, ?hF)"
    using kN by (simp only: get_properties_new_plot simp_thms if_False)
  have cT: "cells ?hT ?a = AList.update ''template'' ''confusion_normalized''
                 (default_literal ConfusionMatrix)"
    by (simp add: d[simplified])
  have cF: "cells ?hF ?a = default_literal ConfusionMatrix"
    by (simp add: d[simplified])
  have t1: "map_of (cells ?hT ?a) ''template'' = Some ''confusion_normalized''"
    unfolding cT by (simp add: update_conv')
  have t2: "map_of (cells ?hF ?a) ''template'' = Some ''confusion''"
    unfolding cF by simp
  have others: "\<forall>k. k \<noteq> ''template'' \<longrightarrow> map_of (cells ?hT ?a) k = map_of (cells ?hF ?a) k"
    unfolding cT cF by (simp add: update_conv')
  have keys: "map fst (cells ?hT ?a) = map fst (cells ?hF ?a)"
    unfolding cT cF by simp
  show ?thesis
    apply (rule exI[of _ ?a], rule exI[of _ ?hT])
    apply (rule exI[of _ ?a], rule exI[of _ ?hF])
    apply (rule exI[of _ ?a], rule exI[of _ ?hF])
    apply (intro conjI)
    subgoal by (rule gT)
    subgoal by (rule gF)
    subgoal by (rule gN)
    subgoal by (rule t1)
    subgoal by (rule t2)
    subgoal by (rule t2)
    subgoal by (rule others)
    subgoal by (rule keys)
    subgoal by (rule refl)
    done
qed

theorem confusion_matrix_template_witness:
  "cells class_heap (DEFAULT_PROPERTIES ConfusionMatrix) = default_literal ConfusionMatrix
   \<and> (\<exists>aT hT aN hN.
        get_properties unit_runtime
          (new_plot unit_runtime ConfusionMatrix ''cm'' ''out'' [(''normalized'', PBool True)]) class_heap
          = (Inr aT, hT)
      \<and> get_properties unit_runtime
          (new_plot unit_runtime ConfusionMatrix ''cm'' ''out'' []) class_heap = (Inr aN, hN)
      \<and> map_of (cells hT aT) ''template'' = Some ''confusion_normalized''
      \<and> map_of (cells hN aN) ''template'' = Some ''confusion''
      \<and> map_of (cells hT aT) ''x_label'' = map_of (cells hN aN) ''x_label'')"
proof -
  have d: "cells class_heap (DEFAULT_PROPERTIES ConfusionMatrix) = default_literal ConfusionMatrix"
    by (simp add: class_heap_def)
  from confusion_matrix_template[OF d, of unit_runtime "''cm''" "''out''"]
  obtain aT hT aF hF aN hN where
      gT: "get_properties unit_runtime
          (new_plot unit_runtime ConfusionMatrix ''cm'' ''out'' [(''normalized'', PBool True)]) class_heap
          = (Inr aT, hT)"
    and gF: "get_properties unit_runtime
          (new_plot unit_runtime ConfusionMatrix ''cm'' ''out'' [(''normalized'', PBool False)]) class_heap
          = (Inr aF, hF)"
    and gN: "get_properties unit_runtime
          (new_plot unit_runtime ConfusionMatrix ''cm'' ''out'' []) class_heap = (Inr aN, hN)"
    and t1: "map_of (cells hT aT) ''template'' = Some ''confusion_normalized''"
    and t2: "map_of (cells hF aF) ''template'' = Some ''confusion''"
    and t3: "map_of (cells hN aN) ''template'' = Some ''confusion''"
    and others: "\<forall>k. k \<noteq> ''template'' \<longrightarrow> map_of (cells hT aT) k = map_of (cells hF aF) k"
    and keys: "map fst (cells hT aT) = map fst (cells hF aF)"
    and same: "cells hN aN = cells hF aF"
    by (elim exE conjE) (rule that)
  have ne: "''x_label'' \<noteq> ''template''" by simp
  from others have "''x_label'' \<noteq> ''template'' \<longrightarrow>
      map_of (cells hT aT) ''x_label'' = map_of (cells hF aF) ''x_label''"
    by (rule spec)
  then have "map_of (cells hT aT) ''x_label'' = map_of (cells hF aF) ''x_label''"
    using ne by (rule mp)
  then have x: "map_of (cells hT aT) ''x_label'' = map_of (cells hN aN) ''x_label''"
    by (simp only: same)
  show ?thesis
    apply (rule conjI[OF d])
    apply (rule exI[of _ aT], rule exI[of _ hT], rule exI[of _ aN], rule exI[of _ hN])
    apply (intro conjI)
    subgoal by (rule gT)
    subgoal by (rule gN)
    subgoal by (rule t1)
    subgoal by (rule t3)
    subgoal by (rule x)
    done
qed

section \<open>File system effects\<close>

lemma os_mkdir_Inr:
  "os_mkdir p fs = (Inr u, fs') \<Longrightarrow> fs' = fs\<lparr>entries := (entries fs)(p \<mapsto> Dir)\<rparr>"
  by (auto simp: os_mkdir_def split: option.splits if_splits)

lemma os_mkdir_Inl: "os_mkdir p fs = (Inl e, fs') \<Longrightarrow> fs' = fs"
  by (auto simp: os_mkdir_def split: option.splits if_splits)

lemma mkdir_single_is_dir: "mkdir_single p fs = (Inr u, fs') \<Longrightarrow> is_dir fs' p"
  by (auto simp: mkdir_single_def is_dir_def split: prod.splits sum.splits if_splits
      dest!: os_mkdir_Inr)

lemma mkdir_parents_is_dir: "mkdir_parents p fs = (Inr u, fs') \<Longrightarrow> is_dir fs' p"
proof (induction p fs arbitrary: u fs' rule: mkdir_parents.induct)
  case (1 p fs)
  obtain r fs1 where m: "os_mkdir p fs = (r, fs1)" by (cases "os_mkdir p fs")
  show ?case
  proof (cases r)
    case (Inr v)
    with m 1(2) have "fs' = fs1" by (simp add: mkdir_parents.simps[of p fs])
    moreover from m Inr have "fs1 = fs\<lparr>entries := (entries fs)(p \<mapsto> Dir)\<rparr>"
      by (auto dest: os_mkdir_Inr)
    ultimately show ?thesis by (simp add: is_dir_def)
  next
    case (Inl e)
    show ?thesis
    proof (cases "e = FileNotFoundError")
      case True
      show ?thesis
      proof (cases "parent p = p")
        case True
        with m Inl \<open>e = FileNotFoundError\<close> 1(2) show ?thesis
          by (simp add: mkdir_parents.simps[of p fs])
      next
        case False
        obtain r2 fs2 where m2: "mkdir_parents (parent p) fs1 = (r2, fs2)"
          by (cases "mkdir_parents (parent p) fs1")
        with m Inl True False 1(2) have "\<exists>v. r2 = Inr v \<and> mkdir_single p fs2 = (Inr u, fs')"
          by (cases r2) (simp_all add: mkdir_parents.simps[of p fs])
        then show ?thesis by (auto dest: mkdir_single_is_dir)
      qed
    next
      case False
      with m Inl 1(2) have "is_dir fs1 p \<and> fs' = fs1"
        by (simp add: mkdir_parents.simps[of p fs] split: if_splits)
      then show ?thesis by simp
    qed
  qed
qed

lemma dump_json_Inr:
  "dump_json c p fs = (Inr u, fs') \<Longrightarrow> fs' = fs\<lparr>entries := (entries fs)(p \<mapsto> File c)\<rparr> \<and> \<not> is_dir fs p"
  by (auto simp: dump_json_def split: option.splits if_splits)

lemma dump_json_Inl: "dump_json c p fs = (Inl e, fs') \<Longrightarrow> fs' = fs"
  by (auto simp: dump_json_def split: option.splits if_splits)

lemma output_path_Inr:
  "output_path self fs = (Inr p, fs') \<Longrightarrow>
     p = Path_of (Path_str (Path_join (output_folder self) (name self)) @ ''.json'')
     \<and> is_dir fs' (parent p)"
  by (auto simp: output_path_def Let_def split: prod.splits sum.splits dest: mkdir_parents_is_dir)

lemma write_out_Inr:
  assumes "write_out c self fs = (Inr u, fs')"
  shows "\<exists>p fs1. output_path self fs = (Inr p, fs1)
           \<and> fs' = fs1\<lparr>entries := (entries fs1)(p \<mapsto> File c)\<rparr>
           \<and> entries fs' p = Some (File c)
           \<and> is_dir fs' (parent p)"
proof -
  obtain r fs1 where o: "output_path self fs = (r, fs1)" by (cases "output_path self fs")
  with assms obtain p where p: "r = Inr p" and d: "dump_json c p fs1 = (Inr u, fs')"
    by (cases r) (simp_all add: write_out_def)
  from d have fs': "fs' = fs1\<lparr>entries := (entries fs1)(p \<mapsto> File c)\<rparr>" and nd: "\<not> is_dir fs1 p"
    by (auto dest: dump_json_Inr)
  from o p have pd: "is_dir fs1 (parent p)" by (auto dest: output_path_Inr)
  from nd pd have "parent p \<noteq> p" by auto
  with pd have "is_dir fs' (parent p)" by (simp add: fs' is_dir_def)
  with o p fs' show ?thesis by simp
qed

lemma call3_Inl:
  "getitem rt val 0 = Inr a \<Longrightarrow> getitem rt val 1 = Inr b \<Longrightarrow> \<not> kw_clash ks kw \<Longrightarrow>
   f a b kw = Inl e \<Longrightarrow> call3 rt f ks val kw = Inl e"
  by (simp add: call3_def)

lemma call2_Inl:
  "getitem rt val 0 = Inr a \<Longrightarrow> getitem rt val 1 = Inr b \<Longrightarrow> \<not> kw_clash ks kw \<Longrightarrow>
   f a b kw = Inl e \<Longrightarrow> call2 rt f ks val kw = Inl e"
  by (simp add: call2_def)

text \<open>
  Claim C8. For the Roc, PrecisionRecall, Det and Calibration variants: when both
  subscripts of the value succeed, no keyword is given twice and the external routine
  raises \<open>e\<close>, \<open>dump\<close> raises \<open>e\<close> and the file system is the one it started from: no
  directory was created and no file written.
\<close>

theorem external_failure_no_side_effect:
  assumes "getitem rt val 0 = Inr a" and "getitem rt val 1 = Inr b"
  shows "(cls self = Roc \<and> metrics sk = Some m \<and> \<not> kw_clash [''y_true'', ''y_score''] kw
            \<and> roc_curve m a b kw = Inl e
          \<longrightarrow> dump rt sk self val kw fs = (Inl e, fs))
       \<and> (cls self = PrecisionRecall \<and> metrics sk = Some m
            \<and> \<not> kw_clash [''y_true'', ''probas_pred''] kw
            \<and> precision_recall_curve m a b kw = Inl e
          \<longrightarrow> dump rt sk self val kw fs = (Inl e, fs))
       \<and> (cls self = Det \<and> metrics sk = Some m \<and> \<not> kw_clash [''y_true'', ''y_score''] kw
            \<and> det_curve m a b kw = Inl e
          \<longrightarrow> dump rt sk self val kw fs = (Inl e, fs))
       \<and> (cls self = Calibration \<and> calibration sk = Some c
            \<and> \<not> kw_clash [''y_true'', ''y_prob''] kw
            \<and> calibration_curve c a b kw = Inl e
          \<longrightarrow> dump rt sk self val kw fs = (Inl e, fs))"
proof (intro conjI impI)
  assume "cls self = Roc \<and> metrics sk = Some m \<and> \<not> kw_clash [''y_true'', ''y_score''] kw
            \<and> roc_curve m a b kw = Inl e"
  then show "dump rt sk self val kw fs = (Inl e, fs)"
    using assms by (simp add: dump_def Roc_dump_def call3_Inl)
next
  assume "cls self = PrecisionRecall \<and> metrics sk = Some m
            \<and> \<not> kw_clash [''y_true'', ''probas_pred''] kw
            \<and> precision_recall_curve m a b kw = Inl e"
  then show "dump rt sk self val kw fs = (Inl e, fs)"
    using assms by (simp add: dump_def PrecisionRecall_dump_def call3_Inl)
next
  assume "cls self = Det \<and> metrics sk = Some m \<and> \<not> kw_clash [''y_true'', ''y_score''] kw
            \<and> det_curve m a b kw = Inl e"
  then show "dump rt sk self val kw fs = (Inl e, fs)"
    using assms by (simp add: dump_def Det_dump_def call3_Inl)
next
  assume "cls self = Calibration \<and> calibration sk = Some c
            \<and> \<not> kw_clash [''y_true'', ''y_prob''] kw
            \<and> calibration_curve c a b kw = Inl e"
  then show "dump rt sk self val kw fs = (Inl e, fs)"
    using assms by (simp add: dump_def Calibration_dump_def call2_Inl)
qed

theorem external_failure_no_side_effect_witness:
  "dump unit_runtime failing_sklearn (new_plot unit_runtime Roc ''roc'' ''out'' [])
      (PTuple [PList [PInt 0, PInt 1], PList [PInt 0, PInt 1]]) [] empty_fs
     = (Inl (OtherError ''ValueError''), empty_fs)
   \<and> dump unit_runtime failing_sklearn (new_plot unit_runtime Calibration ''cal'' ''out'' [])
      (PTuple [PList [PInt 0, PInt 1], PList [PInt 0, PInt 1]]) [(''n_bins'', PInt 5)] empty_fs
     = (Inl (OtherError ''ValueError''), empty_fs)
   \<and> entries (snd (dump unit_runtime failing_sklearn (new_plot unit_runtime Roc ''roc'' ''out'' [])
      (PTuple [PList [PInt 0, PInt 1], PList [PInt 0, PInt 1]]) [] empty_fs))
        \<lparr>anchor = [], segments = [''out'']\<rparr> = None"
proof -
  let ?val = "PTuple [PList [PInt 0, PInt 1], PList [PInt 0, PInt 1]] :: unit pyval"
  have g0: "getitem unit_runtime ?val 0 = Inr (PList [PInt 0, PInt 1])"
    by (simp add: seq_getitem_def)
  have g1: "getitem unit_runtime ?val 1 = Inr (PList [PInt 0, PInt 1])"
    by (simp add: seq_getitem_def)
  note th = external_failure_no_side_effect[OF g0 g1]
  have roc: "dump unit_runtime failing_sklearn (new_plot unit_runtime Roc ''roc'' ''out'' [])
      ?val [] empty_fs = (Inl (OtherError ''ValueError''), empty_fs)"
    using th[of "new_plot unit_runtime Roc ''roc'' ''out'' []" failing_sklearn
        "\<lparr>roc_curve = failing_curve3, precision_recall_curve = failing_curve3,
                       det_curve = failing_curve3\<rparr>" "[]" "OtherError ''ValueError''"]
    by (simp add: cls_new_plot failing_sklearn_def failing_curve3_def kw_clash_def)
  have cal: "dump unit_runtime failing_sklearn (new_plot unit_runtime Calibration ''cal'' ''out'' [])
      ?val [(''n_bins'', PInt 5)] empty_fs = (Inl (OtherError ''ValueError''), empty_fs)"
    using th[of "new_plot unit_runtime Calibration ''cal'' ''out'' []" failing_sklearn _
        "[(''n_bins'', PInt 5)]" "OtherError ''ValueError''" _ "\<lparr>calibration_curve = failing_curve2\<rparr>"]
    by (simp add: cls_new_plot failing_sklearn_def failing_curve2_def kw_clash_def)
  show ?thesis
    by (simp only: roc cal snd_conv) (simp add: empty_fs_def)
qed

section \<open>Resolving and creating the output path\<close>

lemma walk_None_iff: "walk fs qs = None \<longleftrightarrow> (\<forall>q\<in>set qs. entries fs q = Some Dir)"
  by (induction qs) (auto split: option.splits node.splits)

lemma walk_Some_cases:
  "walk fs qs = Some e \<Longrightarrow>
     (e = FileNotFoundError \<or> (e = NotADirectoryError \<and> (\<exists>q\<in>set qs. \<not> no_file_at fs q)))"
  by (induction qs) (auto simp: no_file_at_def split: option.splits node.splits)

lemma ancestors_Nil: "segments p = [] \<Longrightarrow> ancestors p = []"
  by (simp add: ancestors_def)

lemma parent_segments: "segments (parent p) = butlast (segments p)"
  by (simp add: parent_def)

lemma ancestors_snoc:
  assumes "segments p \<noteq> []"
  shows "ancestors p = ancestors (parent p) @ [p]"
proof -
  let ?n = "length (segments p)"
  from assms obtain m where m: "?n = Suc m" by (cases "segments p") auto
  have up: "[1..<Suc ?n] = [1..<?n] @ [?n]" using m by simp
  have a: "map (\<lambda>n. p\<lparr>segments := take n (segments p)\<rparr>) [1..<?n]
        = map (\<lambda>n. parent p\<lparr>segments := take n (segments (parent p))\<rparr>) [1..<?n]"
    by (rule map_cong[OF refl]) (simp add: parent_def take_butlast)
  have len: "Suc (length (segments (parent p))) = ?n" using m by (simp add: parent_def)
  show ?thesis
    unfolding ancestors_def[of p] up map_append a
    by (simp add: ancestors_def[of "parent p"] len)
qed

lemma ancestors_length: "q \<in> set (ancestors p) \<Longrightarrow> length (segments q) \<le> length (segments p)"
  by (auto simp: ancestors_def)

lemma ancestors_nonempty: "q \<in> set (ancestors p) \<Longrightarrow> segments q \<noteq> []"
  by (auto simp: ancestors_def)

lemma not_in_parent_ancestors:
  assumes "segments p \<noteq> []"
  shows "p \<notin> set (ancestors (parent p))"
proof
  assume "p \<in> set (ancestors (parent p))"
  then have "length (segments p) \<le> length (segments (parent p))" by (rule ancestors_length)
  moreover have "length (segments (parent p)) = length (segments p) - 1"
    by (simp add: parent_def)
  moreover have "0 < length (segments p)" using assms by simp
  ultimately show False by arith
qed

lemma resolve_dir_None_iff:
  "resolve_dir fs p = None \<longleftrightarrow> (\<forall>q\<in>set (ancestors p). entries fs q = Some Dir)"
  by (simp add: resolve_dir_def walk_None_iff)

lemma resolve_dir_Some:
  assumes "resolve_dir fs p = Some e" and "list_all (no_file_at fs) (ancestors p)"
  shows "e = FileNotFoundError"
  using walk_Some_cases[of fs "ancestors p" e] assms
  by (auto simp: resolve_dir_def list_all_iff)

lemma os_mkdir_final:
  assumes res: "resolve_dir fs (parent p) = None"
    and p: "segments p \<noteq> []" and nf: "no_file_at fs p" and d: "denied fs = {}"
  shows "mkdir_single p fs = (Inr (), with_dirs fs p)"
proof -
  have anc: "ancestors p = ancestors (parent p) @ [p]" using p by (rule ancestors_snoc)
  from res have dirs: "\<forall>q\<in>set (ancestors (parent p)). entries fs q = Some Dir"
    by (simp add: resolve_dir_None_iff)
  have eq: "(\<lambda>q. if q \<in> set (ancestors p) then Some Dir else entries fs q) = (entries fs)(p \<mapsto> Dir)"
    using dirs by (auto simp: anc fun_eq_iff)
  show ?thesis
  proof (cases "entries fs p")
    case None
    then show ?thesis
      using res p d by (simp add: mkdir_single_def os_mkdir_def with_dirs_def eq)
  next
    case (Some n)
    with nf have n: "entries fs p = Some Dir"
      by (cases n) (simp_all add: no_file_at_def)
    then have "(entries fs)(p \<mapsto> Dir) = entries fs" by (auto simp: fun_eq_iff)
    then show ?thesis
      using res p n by (simp add: mkdir_single_def os_mkdir_def with_dirs_def eq is_dir_def)
  qed
qed

lemma mkdir_parents_succeeds:
  assumes "list_all (no_file_at fs) (ancestors p)" and "denied fs = {}"
  shows "mkdir_parents p fs = (Inr (), with_dirs fs p)"
  using assms
proof (induction "length (segments p)" arbitrary: p)
  case 0
  then have s: "segments p = []" by simp
  then have "with_dirs fs p = fs" by (simp add: with_dirs_def ancestors_Nil)
  moreover have "os_mkdir p fs = (Inl FileExistsError, fs)"
    using s by (simp add: os_mkdir_def resolve_dir_def parent_def ancestors_def)
  ultimately show ?case
    using s by (simp add: mkdir_parents.simps[of p fs] is_dir_def)
next
  case (Suc n)
  then have p: "segments p \<noteq> []" by auto
  have anc: "ancestors p = ancestors (parent p) @ [p]" using p by (rule ancestors_snoc)
  from Suc.prems(1) have nfp: "list_all (no_file_at fs) (ancestors (parent p))"
    and nf: "no_file_at fs p"
    by (simp_all add: anc)
  have par: "parent p \<noteq> p" using p by (cases "segments p" rule: rev_cases) (auto simp: parent_def dest: arg_cong[of _ _ segments])
  show ?case
  proof (cases "resolve_dir fs (parent p)")
    case None
    from os_mkdir_final[OF None p nf Suc.prems(2)]
    have single: "mkdir_single p fs = (Inr (), with_dirs fs p)" .
    obtain r fs1 where o: "os_mkdir p fs = (r, fs1)" by (cases "os_mkdir p fs")
    have nofnf: "r \<noteq> Inl FileNotFoundError"
      using o None by (auto simp: os_mkdir_def split: if_splits)
    show ?thesis
      using single o nofnf
      by (cases r) (auto simp: mkdir_parents.simps[of p fs] mkdir_single_def split: if_splits)
  next
    case (Some e)
    from Some nfp have e: "e = FileNotFoundError" by (rule resolve_dir_Some)
    have o: "os_mkdir p fs = (Inl FileNotFoundError, fs)"
      using Some e by (simp add: os_mkdir_def)
    have len: "n = length (segments (parent p))"
      using Suc.hyps(2) by (simp add: parent_def)
    have rec: "mkdir_parents (parent p) fs = (Inr (), with_dirs fs (parent p))"
      using Suc.hyps(1)[OF len nfp Suc.prems(2)] .
    let ?fs2 = "with_dirs fs (parent p)"
    have res2: "resolve_dir ?fs2 (parent p) = None"
      by (simp add: resolve_dir_None_iff with_dirs_def)
    have notin: "p \<notin> set (ancestors (parent p))" using p by (rule not_in_parent_ancestors)
    then have nf2: "no_file_at ?fs2 p" using nf by (simp add: no_file_at_def with_dirs_def)
    have d2: "denied ?fs2 = {}" using Suc.prems(2) by (simp add: with_dirs_def)
    have "mkdir_single p ?fs2 = (Inr (), with_dirs ?fs2 p)"
      using os_mkdir_final[OF res2 p nf2 d2] .
    moreover have "with_dirs ?fs2 p = with_dirs fs p"
      by (auto simp: with_dirs_def anc fun_eq_iff)
    ultimately show ?thesis
      using o rec par by (simp add: mkdir_parents.simps[of p fs])
  qed
qed

lemma dump_json_succeeds:
  assumes "resolve_dir fs (parent p) = None" and "\<not> is_dir fs p" and "denied fs = {}"
  shows "dump_json c p fs = (Inr (), fs\<lparr>entries := (entries fs)(p \<mapsto> File c)\<rparr>)"
  using assms by (simp add: dump_json_def)

lemma output_path_succeeds:
  assumes "admits fs (resolved_path self)"
  shows "output_path self fs
           = (Inr (resolved_path self), with_dirs fs (parent (resolved_path self)))"
proof -
  from assms have "mkdir_parents (parent (resolved_path self)) fs
                     = (Inr (), with_dirs fs (parent (resolved_path self)))"
    by (intro mkdir_parents_succeeds) (simp_all add: admits_def)
  then show ?thesis
    by (simp add: output_path_def resolved_path_def Let_def)
qed

lemma write_out_succeeds:
  assumes "admits fs (resolved_path self)"
  shows "write_out c self fs = (Inr (), written fs (resolved_path self) c)"
proof -
  let ?p = "resolved_path self"
  from assms have d: "denied fs = {}" and nf: "list_all (no_file_at fs) (ancestors (parent ?p))"
    and nd: "entries fs ?p \<noteq> Some Dir" and s: "segments ?p \<noteq> []"
    by (simp_all add: admits_def)
  let ?fs1 = "with_dirs fs (parent ?p)"
  have mk: "mkdir_parents (parent ?p) fs = (Inr (), ?fs1)"
    using nf d by (rule mkdir_parents_succeeds)
  then have op: "output_path self fs = (Inr ?p, ?fs1)"
    by (simp add: output_path_def resolved_path_def Let_def)
  have res: "resolve_dir ?fs1 (parent ?p) = None"
    by (simp add: resolve_dir_None_iff with_dirs_def)
  have notin: "?p \<notin> set (ancestors (parent ?p))" using s by (rule not_in_parent_ancestors)
  then have nd1: "\<not> is_dir ?fs1 ?p" using nd s by (simp add: is_dir_def with_dirs_def)
  have d1: "denied ?fs1 = {}" using d by (simp add: with_dirs_def)
  have "dump_json c ?p ?fs1 = (Inr (), ?fs1\<lparr>entries := (entries ?fs1)(?p \<mapsto> File c)\<rparr>)"
    using res nd1 d1 by (rule dump_json_succeeds)
  then show ?thesis
    using op by (simp add: write_out_def written_def)
qed

lemma written_entries:
  "entries (written fs p c) q =
     (if q = p then Some (File c)
      else if q \<in> set (ancestors (parent p)) then Some Dir else entries fs q)"
  by (simp add: written_def with_dirs_def)

lemma new_plot_fields:
  "name (new_plot rt v nm folder kw) = str_replace ''.json'' [] nm"
  "output_folder (new_plot rt v nm folder kw) = Path_join (Path_of folder) subfolder"
  by (simp_all add: new_plot_def ConfusionMatrix_init_def SKLearnPlot_init_def Data_init_def)

lemma admits_empty_fs: "segments p \<noteq> [] \<Longrightarrow> admits empty_fs p"
  by (simp add: admits_def empty_fs_def list_all_iff no_file_at_def)

lemma resolved_path_example:
  "resolved_path (new_plot rt v ''cm.json'' ''out'' kw)
     = \<lparr>anchor = [], segments = [''out'', ''sklearn'', ''cm.json'']\<rparr>"
  by (simp add: resolved_path_def new_plot_fields Path_join_def Path_of_def Path_str_def
      parse_anchor_def subfolder_def Let_def)

lemma write_out_Inr_entry:
  assumes "write_out c self fs = (Inr u, fs')"
  shows "fst (output_path self fs) = Inr (resolved_path self)
       \<and> entries fs' (resolved_path self) = Some (File c)
       \<and> is_dir fs' (parent (resolved_path self))"
proof -
  from write_out_Inr[OF assms] obtain p fs1 where
    o: "output_path self fs = (Inr p, fs1)" and e: "entries fs' p = Some (File c)"
    and d: "is_dir fs' (parent p)"
    by blast
  from o have "p = resolved_path self"
    by (auto simp: resolved_path_def dest: output_path_Inr)
  with o e d show ?thesis by simp
qed

subsection \<open>The extension of the name\<close>

lemma delete_occurrences_none:
  assumes "\<not> has_occurrence pat s"
  shows "delete_occurrences pat s = s"
proof -
  have nc: "\<not> covered pat s j" if "j < length s" for j
  proof
    assume "covered pat s j"
    then obtain i where i: "i \<le> j" "occurs_at pat s i"
      unfolding covered_iff by blast
    from i(1) that have "i \<in> set [0..<Suc (length s)]" by simp
    with i(2) have "has_occurrence pat s"
      unfolding has_occurrence_def list_ex_iff by blast
    with assms show False by contradiction
  qed
  have "filter (\<lambda>j. \<not> covered pat s j) [0..<length s] = [0..<length s]"
    by (rule filter_True) (simp add: nc)
  then show ?thesis
    unfolding delete_occurrences_def by (simp only: map_nth)
qed

lemma resolved_path_foo:
  "resolved_path (new_plot rt v ''foo.json'' ''out'' kw)
     = \<lparr>anchor = [], segments = [''out'', ''sklearn'', ''foo.json'']\<rparr>"
  by (simp add: resolved_path_def new_plot_fields Path_join_def Path_of_def Path_str_def
      parse_anchor_def subfolder_def Let_def)

lemma parent_foo:
  "parent \<lparr>anchor = [], segments = [''out'', ''sklearn'', ''foo.json'']\<rparr>
     = \<lparr>anchor = [], segments = [''out'', ''sklearn'']\<rparr>"
  by (simp add: parent_def)

text \<open>
  Claim C3. An adapter constructed with the name \<^verbatim>\<open>foo.json\<close> is the adapter constructed
  with the name \<^verbatim>\<open>foo\<close> and the same output folder, and both resolve the same output
  path; from an empty file system and the folder \<^verbatim>\<open>out\<close> that path is
  \<^verbatim>\<open>out/sklearn/foo.json\<close>. In general the name stored for \<open>s\<close> followed by
  \<^verbatim>\<open>.json\<close> is \<open>s\<close> with its occurrences of \<^verbatim>\<open>.json\<close> deleted: a name \<open>s\<close> free
  of the extension is stored unchanged, with the extension appended it is stored as \<open>s\<close>,
  and every path resolved for it is the output folder joined with the stripped name,
  followed by \<^verbatim>\<open>.json\<close>.
\<close>

theorem json_extension_stripped:
  "new_plot rt v (s @ ''.json'') folder kw = new_plot rt v s folder kw
   \<and> name (new_plot rt v ''foo.json'' folder kw) = ''foo''
   \<and> output_path (new_plot rt v ''foo.json'' folder kw) fs
       = output_path (new_plot rt v ''foo'' folder kw) fs
   \<and> name (new_plot rt v (s @ ''.json'') folder kw) = delete_occurrences ''.json'' s
   \<and> (\<not> has_occurrence ''.json'' s \<longrightarrow>
         name (new_plot rt v s folder kw) = s
       \<and> name (new_plot rt v (s @ ''.json'') folder kw) = s)
   \<and> (\<forall>p fs'. output_path (new_plot rt v (s @ ''.json'') folder kw) fs = (Inr p, fs') \<longrightarrow>
         p = Path_of (Path_str (Path_join (Path_join (Path_of folder) subfolder)
                                  (delete_occurrences ''.json'' s)) @ ''.json''))
   \<and> output_path (new_plot rt v ''foo.json'' ''out'' kw) empty_fs
       = (Inr \<lparr>anchor = [], segments = [''out'', ''sklearn'', ''foo.json'']\<rparr>,
          with_dirs empty_fs \<lparr>anchor = [], segments = [''out'', ''sklearn'']\<rparr>)"
proof -
  have "str_replace ''.json'' [] (s @ ''.json'' @ []) = str_replace ''.json'' [] s @ str_replace ''.json'' [] []"
    by (rule replace_json_append)
  then have strip: "str_replace ''.json'' [] (s @ ''.json'') = str_replace ''.json'' [] s"
    by simp
  have gen: "new_plot rt v (s @ ''.json'') folder kw = new_plot rt v s folder kw"
    by (simp only: new_plot_def ConfusionMatrix_init_def SKLearnPlot_init_def Data_init_def
        Let_def plot.simps strip)
  have foo: "new_plot rt v ''foo.json'' folder kw = new_plot rt v ''foo'' folder kw"
    by (simp add: new_plot_def ConfusionMatrix_init_def SKLearnPlot_init_def Data_init_def)
  have nm: "name (new_plot rt v ''foo.json'' folder kw) = ''foo''"
    by (simp add: new_plot_def ConfusionMatrix_init_def SKLearnPlot_init_def Data_init_def)
  have op: "output_path (new_plot rt v ''foo.json'' folder kw) fs
       = output_path (new_plot rt v ''foo'' folder kw) fs"
    by (simp only: foo)
  have stored: "name (new_plot rt v t folder kw) = delete_occurrences ''.json'' t" for t
    by (simp only: new_plot_fields replace_json_refines)
  have ext: "name (new_plot rt v (s @ ''.json'') folder kw) = delete_occurrences ''.json'' s"
    by (simp only: gen stored)
  have clean: "\<not> has_occurrence ''.json'' s \<longrightarrow>
         name (new_plot rt v s folder kw) = s
       \<and> name (new_plot rt v (s @ ''.json'') folder kw) = s"
    by (simp only: gen stored) (simp add: delete_occurrences_none)
  have path: "\<forall>p fs'. output_path (new_plot rt v (s @ ''.json'') folder kw) fs = (Inr p, fs') \<longrightarrow>
         p = Path_of (Path_str (Path_join (Path_join (Path_of folder) subfolder)
                                  (delete_occurrences ''.json'' s)) @ ''.json'')"
  proof (intro allI impI)
    fix p fs'
    assume "output_path (new_plot rt v (s @ ''.json'') folder kw) fs = (Inr p, fs')"
    then have "p = Path_of (Path_str (Path_join
                  (output_folder (new_plot rt v (s @ ''.json'') folder kw))
                  (name (new_plot rt v (s @ ''.json'') folder kw))) @ ''.json'')"
      by (auto dest: output_path_Inr)
    then show "p = Path_of (Path_str (Path_join (Path_join (Path_of folder) subfolder)
                                  (delete_occurrences ''.json'' s)) @ ''.json'')"
      by (simp only: ext new_plot_fields(2))
  qed
  have "admits empty_fs (resolved_path (new_plot rt v ''foo.json'' ''out'' kw))"
    by (rule admits_empty_fs) (simp add: resolved_path_foo)
  then have "output_path (new_plot rt v ''foo.json'' ''out'' kw) empty_fs
       = (Inr (resolved_path (new_plot rt v ''foo.json'' ''out'' kw)),
          with_dirs empty_fs (parent (resolved_path (new_plot rt v ''foo.json'' ''out'' kw))))"
    by (rule output_path_succeeds)
  then have conc: "output_path (new_plot rt v ''foo.json'' ''out'' kw) empty_fs
       = (Inr \<lparr>anchor = [], segments = [''out'', ''sklearn'', ''foo.json'']\<rparr>,
          with_dirs empty_fs \<lparr>anchor = [], segments = [''out'', ''sklearn'']\<rparr>)"
    by (simp only: resolved_path_foo parent_foo)
  show ?thesis
    apply (intro conjI)
    subgoal by (rule gen)
    subgoal by (rule nm)
    subgoal by (rule op)
    subgoal by (rule ext)
    subgoal by (rule clean)
    subgoal by (rule path)
    subgoal by (rule conc)
    done
qed

text \<open>The name \<^verbatim>\<open>model.v2\<close> contains a dot but not the extension.\<close>

lemma resolved_path_model:
  "resolved_path (new_plot rt v ''model.v2'' ''out'' kw)
     = \<lparr>anchor = [], segments = [''out'', ''sklearn'', ''model.v2.json'']\<rparr>"
  by (simp add: resolved_path_def new_plot_fields Path_join_def Path_of_def Path_str_def
      parse_anchor_def subfolder_def Let_def)

theorem json_extension_stripped_witness:
  "\<not> has_occurrence ''.json'' ''model.v2''
   \<and> name (new_plot unit_runtime Roc ''model.v2'' ''out'' [] :: unit plot) = ''model.v2''
   \<and> name (new_plot unit_runtime Roc ''model.v2.json'' ''out'' [] :: unit plot) = ''model.v2''
   \<and> output_path (new_plot unit_runtime Roc ''model.v2.json'' ''out'' [] :: unit plot)
        (empty_fs :: unit pyval filesystem)
       = (Inr \<lparr>anchor = [], segments = [''out'', ''sklearn'', ''model.v2.json'']\<rparr>,
          with_dirs empty_fs \<lparr>anchor = [], segments = [''out'', ''sklearn'']\<rparr>)"
proof -
  let ?a = "new_plot unit_runtime Roc ''model.v2'' ''out'' [] :: unit plot"
  let ?b = "new_plot unit_runtime Roc (''model.v2'' @ ''.json'') ''out'' [] :: unit plot"
  have no: "\<not> has_occurrence ''.json'' ''model.v2''"
    by (simp add: has_occurrence_def occurs_at_def upt_conv_Cons)
  note th = json_extension_stripped[of unit_runtime Roc "''model.v2''" "''out''" "[]"
              "empty_fs :: unit pyval filesystem"]
  have "\<not> has_occurrence ''.json'' ''model.v2'' \<longrightarrow>
         name ?a = ''model.v2'' \<and> name ?b = ''model.v2''"
    by (rule th[THEN conjunct2, THEN conjunct2, THEN conjunct2, THEN conjunct2, THEN conjunct1])
  then have names: "name ?a = ''model.v2'' \<and> name ?b = ''model.v2''"
    using no by (rule mp)
  have same: "?b = ?a" by (rule th[THEN conjunct1])
  have "admits (empty_fs :: unit pyval filesystem) (resolved_path ?a)"
    by (rule admits_empty_fs) (simp add: resolved_path_model)
  then have "output_path ?a (empty_fs :: unit pyval filesystem)
       = (Inr (resolved_path ?a), with_dirs empty_fs (parent (resolved_path ?a)))"
    by (rule output_path_succeeds)
  then have "output_path ?a (empty_fs :: unit pyval filesystem)
       = (Inr \<lparr>anchor = [], segments = [''out'', ''sklearn'', ''model.v2.json'']\<rparr>,
          with_dirs empty_fs \<lparr>anchor = [], segments = [''out'', ''sklearn'']\<rparr>)"
    by (simp add: resolved_path_model parent_def)
  then have op: "output_path ?b (empty_fs :: unit pyval filesystem)
       = (Inr \<lparr>anchor = [], segments = [''out'', ''sklearn'', ''model.v2.json'']\<rparr>,
          with_dirs empty_fs \<lparr>anchor = [], segments = [''out'', ''sklearn'']\<rparr>)"
    by (simp only: same)
  have app: "''model.v2'' @ ''.json'' = ''model.v2.json''" by simp
  show ?thesis
    using no names op unfolding app by (intro conjI) (elim conjE, assumption)+
qed

section \<open>The documents written by \<open>dump\<close>\<close>

lemma getitem_pair:
  "getitem rt (PTuple [a, b]) 0 = Inr a" "getitem rt (PTuple [a, b]) 1 = Inr b"
  by (simp_all add: seq_getitem_def)

lemma confusion_records_lists:
  assumes "py_iter a = Inr xs" and "py_iter b = Inr ys"
  shows "confusion_records rt (PTuple [a, b]) =
     Inr (map (\<lambda>(actual, predicted).
            PDict [(PStr ''actual'', PStr (py_str rt actual)),
                   (PStr ''predicted'', PStr (py_str rt predicted))]) (zip xs ys))"
  using assms by (simp add: confusion_records_def seq_getitem_def)

lemma confusion_dump_cat_dog:
  "ConfusionMatrix_dump rt self cat_dog kw fs = write_out cat_dog_json self fs"
proof -
  have "confusion_records rt cat_dog
          = Inr [PDict [(PStr ''actual'', PStr ''cat''), (PStr ''predicted'', PStr ''cat'')],
                 PDict [(PStr ''actual'', PStr ''dog''), (PStr ''predicted'', PStr ''cat'')]]"
    by (simp add: cat_dog_def confusion_records_def seq_getitem_def)
  then show ?thesis
    by (simp add: ConfusionMatrix_dump_def cat_dog_json_def)
qed

lemma int_str_digits: "int_str 0 = ''0''" "int_str 1 = ''1''" "int_str 7 = ''7''"
  by code_simp+

text \<open>
  Claim C6. For the input \<^verbatim>\<open>(["cat","dog"], ["cat","cat"])\<close> the confusion-matrix dump
  hands to the writer the bare list of the two records
  \<^verbatim>\<open>{"actual":"cat","predicted":"cat"}\<close> and \<^verbatim>\<open>{"actual":"dog","predicted":"cat"}\<close>,
  with no wrapping key; whenever the dump returns, that list is the content of the file
  at the resolved path, and it does return on every file system that admits the path.
  The values are the results of \<^verbatim>\<open>str\<close>: integers, booleans and \<^verbatim>\<open>None\<close> are written
  as strings as well.
\<close>

theorem confusion_matrix_cat_dog:
  "ConfusionMatrix_dump rt self cat_dog kw fs = write_out cat_dog_json self fs
   \<and> (\<forall>fs'. ConfusionMatrix_dump rt self cat_dog kw fs = (Inr (), fs')
         \<longrightarrow> entries fs' (resolved_path self) = Some (File cat_dog_json))
   \<and> (admits fs (resolved_path self)
         \<longrightarrow> ConfusionMatrix_dump rt self cat_dog kw fs
               = (Inr (), written fs (resolved_path self) cat_dog_json))
   \<and> confusion_records rt (PTuple [PList [PInt 1, PBool True], PTuple [PNone, PInt 0]])
       = Inr [PDict [(PStr ''actual'', PStr ''1''), (PStr ''predicted'', PStr ''None'')],
              PDict [(PStr ''actual'', PStr ''True''), (PStr ''predicted'', PStr ''0'')]]"
proof -
  have eq: "ConfusionMatrix_dump rt self cat_dog kw fs = write_out cat_dog_json self fs"
    by (rule confusion_dump_cat_dog)
  have w: "\<forall>fs'. write_out cat_dog_json self fs = (Inr (), fs')
         \<longrightarrow> entries fs' (resolved_path self) = Some (File cat_dog_json)"
    by (auto dest: write_out_Inr_entry)
  have s: "admits fs (resolved_path self)
         \<longrightarrow> write_out cat_dog_json self fs = (Inr (), written fs (resolved_path self) cat_dog_json)"
    by (auto intro: write_out_succeeds)
  have str: "confusion_records rt (PTuple [PList [PInt 1, PBool True], PTuple [PNone, PInt 0]])
       = Inr [PDict [(PStr ''actual'', PStr ''1''), (PStr ''predicted'', PStr ''None'')],
              PDict [(PStr ''actual'', PStr ''True''), (PStr ''predicted'', PStr ''0'')]]"
    by (simp add: confusion_records_def seq_getitem_def int_str_digits)
  show ?thesis unfolding eq using w s str by (intro conjI) (rule refl, assumption+)
qed

theorem confusion_matrix_cat_dog_witness:
  "admits (empty_fs :: unit pyval filesystem)
      (resolved_path (new_plot unit_runtime ConfusionMatrix ''cm.json'' ''out'' []))
   \<and> fst (ConfusionMatrix_dump unit_runtime (new_plot unit_runtime ConfusionMatrix ''cm.json'' ''out'' [])
        cat_dog [] empty_fs) = Inr ()
   \<and> entries (snd (ConfusionMatrix_dump unit_runtime
        (new_plot unit_runtime ConfusionMatrix ''cm.json'' ''out'' []) cat_dog [] empty_fs))
       \<lparr>anchor = [], segments = [''out'', ''sklearn'', ''cm.json'']\<rparr>
      = Some (File (PList [PDict [(PStr ''actual'', PStr ''cat''), (PStr ''predicted'', PStr ''cat'')],
            PDict [(PStr ''actual'', PStr ''dog''), (PStr ''predicted'', PStr ''cat'')]]))"
proof -
  let ?self = "new_plot unit_runtime ConfusionMatrix ''cm.json'' ''out'' [] :: unit plot"
  have p: "resolved_path ?self = \<lparr>anchor = [], segments = [''out'', ''sklearn'', ''cm.json'']\<rparr>"
    by (rule resolved_path_example)
  have a: "admits (empty_fs :: unit pyval filesystem) (resolved_path ?self)"
    by (rule admits_empty_fs) (simp add: p)
  have "admits (empty_fs :: unit pyval filesystem) (resolved_path ?self)
         \<longrightarrow> ConfusionMatrix_dump unit_runtime ?self cat_dog [] empty_fs
               = (Inr (), written empty_fs (resolved_path ?self) cat_dog_json)"
    by (rule confusion_matrix_cat_dog[of unit_runtime ?self "[]" empty_fs,
          THEN conjunct2, THEN conjunct2, THEN conjunct1])
  then have d: "ConfusionMatrix_dump unit_runtime ?self cat_dog [] empty_fs
               = (Inr (), written empty_fs (resolved_path ?self) cat_dog_json)"
    using a by (rule mp)
  show ?thesis
    using a by (simp add: d written_entries p cat_dog_json_def)
qed

lemma confusion_records_rows:
  assumes "py_iter a = Inr xs" and "py_iter b = Inr ys"
  shows "confusion_records rt (PTuple [a, b]) = Inr (map (confusion_row rt) (zip xs ys))"
proof -
  have "confusion_row rt = (\<lambda>(actual, predicted).
            PDict [(PStr ''actual'', PStr (py_str rt actual)),
                   (PStr ''predicted'', PStr (py_str rt predicted))])"
    by (simp add: fun_eq_iff confusion_row_def)
  then show ?thesis using confusion_records_lists[OF assms, of rt] by simp
qed

lemma dump_json_outcome: "fst (dump_json c p fs) = fst (dump_json c' p fs)"
  by (simp add: dump_json_def split: option.splits)

lemma write_out_outcome: "fst (write_out c self fs) = fst (write_out c' self fs)"
proof -
  obtain r fs1 where o: "output_path self fs = (r, fs1)" by (cases "output_path self fs")
  show ?thesis
    by (cases r) (simp_all add: write_out_def o dump_json_outcome[of c _ fs1 c'])
qed

text \<open>
  Claim C10. For two sequences \<open>xs\<close> and \<open>ys\<close> of any lengths the confusion-matrix dump
  pairs the elements positionally and hands to the writer exactly
  \<open>min (length xs) (length ys)\<close> records, the \<open>i\<close>-th built from \<open>xs ! i\<close> and
  \<open>ys ! i\<close>. It behaves as on the two sequences cut to the shorter length, whatever
  keyword arguments either call receives. A mismatch of the lengths raises nothing: the
  outcome is that of dumping two empty sequences, which only the file system decides,
  and the dump succeeds on every file system that admits the path.
\<close>

theorem confusion_matrix_truncates:
  assumes a: "py_iter a = Inr xs" and b: "py_iter b = Inr ys"
  shows "ConfusionMatrix_dump rt self (PTuple [a, b]) kw fs
           = write_out (PList (map (confusion_row rt) (zip xs ys))) self fs
       \<and> length (map (confusion_row rt) (zip xs ys)) = min (length xs) (length ys)
       \<and> (\<forall>i. i < min (length xs) (length ys) \<longrightarrow>
             map (confusion_row rt) (zip xs ys) ! i = confusion_row rt (xs ! i, ys ! i))
       \<and> ConfusionMatrix_dump rt self (PTuple [a, b]) kw fs
           = ConfusionMatrix_dump rt self
               (PTuple [PList (take (min (length xs) (length ys)) xs),
                        PList (take (min (length xs) (length ys)) ys)]) kw' fs
       \<and> fst (ConfusionMatrix_dump rt self (PTuple [a, b]) kw fs)
           = fst (ConfusionMatrix_dump rt self (PTuple [PList [], PList []]) [] fs)
       \<and> (admits fs (resolved_path self) \<longrightarrow>
             ConfusionMatrix_dump rt self (PTuple [a, b]) kw fs
               = (Inr (), written fs (resolved_path self)
                            (PList (map (confusion_row rt) (zip xs ys)))))"
proof -
  let ?n = "min (length xs) (length ys)"
  let ?rows = "map (confusion_row rt) (zip xs ys)"
  have d: "ConfusionMatrix_dump rt self (PTuple [a, b]) kw fs = write_out (PList ?rows) self fs"
    by (simp add: ConfusionMatrix_dump_def confusion_records_rows[OF a b])
  have len: "length ?rows = ?n" by simp
  have nth: "\<forall>i. i < ?n \<longrightarrow> ?rows ! i = confusion_row rt (xs ! i, ys ! i)" by simp
  have z: "zip (take ?n xs) (take ?n ys) = zip xs ys"
    by (simp add: take_zip[symmetric])
  have t: "ConfusionMatrix_dump rt self (PTuple [PList (take ?n xs), PList (take ?n ys)]) kw' fs
            = write_out (PList ?rows) self fs"
    using confusion_records_rows[of "PList (take ?n xs)" "take ?n xs" "PList (take ?n ys)" "take ?n ys" rt]
    by (simp add: ConfusionMatrix_dump_def z)
  have e: "ConfusionMatrix_dump rt self (PTuple [PList [], PList []]) [] fs
            = write_out (PList []) self fs"
    using confusion_records_rows[of "PList []" "[]" "PList []" "[]" rt]
    by (simp add: ConfusionMatrix_dump_def)
  have o: "fst (ConfusionMatrix_dump rt self (PTuple [a, b]) kw fs)
           = fst (ConfusionMatrix_dump rt self (PTuple [PList [], PList []]) [] fs)"
    unfolding d e by (rule write_out_outcome)
  have s: "admits fs (resolved_path self) \<longrightarrow>
             ConfusionMatrix_dump rt self (PTuple [a, b]) kw fs
               = (Inr (), written fs (resolved_path self) (PList ?rows))"
    unfolding d by (rule impI) (rule write_out_succeeds)
  have dt: "ConfusionMatrix_dump rt self (PTuple [a, b]) kw fs
           = ConfusionMatrix_dump rt self (PTuple [PList (take ?n xs), PList (take ?n ys)]) kw' fs"
    unfolding d t by (rule refl)
  show ?thesis
    apply (intro conjI)
    subgoal by (rule d)
    subgoal by (rule len)
    subgoal by (rule nth)
    subgoal by (rule dt)
    subgoal by (rule o)
    subgoal by (rule s)
    done
qed

theorem confusion_matrix_truncates_witness:
  "py_iter (PList [PStr ''a'', PStr ''b'', PStr ''c''] :: unit pyval)
     = Inr [PStr ''a'', PStr ''b'', PStr ''c'']
   \<and> py_iter (PTuple [PInt 7 :: unit pyval]) = Inr [PInt 7]
   \<and> admits (empty_fs :: unit pyval filesystem)
        (resolved_path (new_plot unit_runtime ConfusionMatrix ''cm.json'' ''out'' []))
   \<and> ConfusionMatrix_dump unit_runtime (new_plot unit_runtime ConfusionMatrix ''cm.json'' ''out'' [])
        (PTuple [PList [PStr ''a'', PStr ''b'', PStr ''c''], PTuple [PInt 7]])
        [(''sample_weight'', PNone)] empty_fs
      = (Inr (), written empty_fs \<lparr>anchor = [], segments = [''out'', ''sklearn'', ''cm.json'']\<rparr>
           (PList [PDict [(PStr ''actual'', PStr ''a''), (PStr ''predicted'', PStr ''7'')]]))"
proof -
  let ?self = "new_plot unit_runtime ConfusionMatrix ''cm.json'' ''out'' [] :: unit plot"
  let ?a = "PList [PStr ''a'', PStr ''b'', PStr ''c''] :: unit pyval"
  let ?b = "PTuple [PInt 7] :: unit pyval"
  have ia: "py_iter ?a = Inr [PStr ''a'', PStr ''b'', PStr ''c'']" by simp
  have ib: "py_iter ?b = Inr [PInt 7]" by simp
  have p: "resolved_path ?self = \<lparr>anchor = [], segments = [''out'', ''sklearn'', ''cm.json'']\<rparr>"
    by (rule resolved_path_example)
  have ad: "admits (empty_fs :: unit pyval filesystem) (resolved_path ?self)"
    by (rule admits_empty_fs) (simp add: p)
  note th = confusion_matrix_truncates[OF ia ib, of unit_runtime ?self "[(''sample_weight'', PNone)]" empty_fs]
  have "admits (empty_fs :: unit pyval filesystem) (resolved_path ?self) \<longrightarrow>
             ConfusionMatrix_dump unit_runtime ?self (PTuple [?a, ?b]) [(''sample_weight'', PNone)] empty_fs
               = (Inr (), written empty_fs (resolved_path ?self)
                    (PList (map (confusion_row unit_runtime)
                       (zip [PStr ''a'', PStr ''b'', PStr ''c''] [PInt 7]))))"
    by (rule th[THEN conjunct2, THEN conjunct2, THEN conjunct2, THEN conjunct2, THEN conjunct2])
  then have d: "ConfusionMatrix_dump unit_runtime ?self (PTuple [?a, ?b]) [(''sample_weight'', PNone)] empty_fs
               = (Inr (), written empty_fs (resolved_path ?self)
                    (PList (map (confusion_row unit_runtime)
                       (zip [PStr ''a'', PStr ''b'', PStr ''c''] [PInt 7]))))"
    using ad by (rule mp)
  have seven: "int_str 7 = ''7''"
    by code_simp
  have rows: "map (confusion_row unit_runtime) (zip [PStr ''a'', PStr ''b'', PStr ''c''] [PInt 7])
      = [PDict [(PStr ''actual'', PStr ''a''), (PStr ''predicted'', PStr ''7'')]]"
    by (simp add: confusion_row_def seven)
  show ?thesis
    using ia ib ad d by (simp only: rows p simp_thms)
qed

lemma call3_pair:
  "\<not> kw_clash ks kw \<Longrightarrow> call3 rt f ks (PTuple [a, b]) kw = f a b kw"
  by (simp add: call3_def seq_getitem_def)

text \<open>
  Claim C5. For a pair \<open>(y_true, y_score)\<close> on which the ROC routine returns the arrays
  \<open>fpr\<close>, \<open>tpr\<close> and \<open>thr\<close>, the Roc dump hands to the writer a dict with the single
  key \<^verbatim>\<open>roc\<close>, whose list has one record for every position the three arrays share:
  the record at \<open>i\<close> has exactly the keys \<^verbatim>\<open>fpr\<close>, \<^verbatim>\<open>tpr\<close> and \<^verbatim>\<open>threshold\<close>
  with the \<open>i\<close>-th elements of the arrays. When the arrays have the length of \<open>thr\<close>, as
  the routine's contract says, there is one record per threshold. Whenever the dump
  returns, the dict is the content of the file at the resolved path, and the dump returns
  on every file system that admits the path.
\<close>

theorem roc_dump_records:
  assumes m: "metrics sk = Some m"
    and kw: "\<not> kw_clash [''y_true'', ''y_score''] kw"
    and r: "roc_curve m y_true y_score kw = Inr (fpr, tpr, thr)"
  shows "\<exists>recs.
           Roc_dump rt sk self (PTuple [y_true, y_score]) kw fs
             = write_out (PDict [(PStr ''roc'', PList recs)]) self fs
         \<and> length recs = min (length fpr) (min (length tpr) (length thr))
         \<and> (length fpr = length thr \<and> length tpr = length thr \<longrightarrow> length recs = length thr)
         \<and> (\<forall>i. i < length recs \<longrightarrow>
               recs ! i = PDict [(PStr ''fpr'', PFloat (fpr ! i)),
                                 (PStr ''tpr'', PFloat (tpr ! i)),
                                 (PStr ''threshold'', PFloat (thr ! i))])
         \<and> (\<forall>fs'. Roc_dump rt sk self (PTuple [y_true, y_score]) kw fs = (Inr (), fs')
               \<longrightarrow> entries fs' (resolved_path self)
                     = Some (File (PDict [(PStr ''roc'', PList recs)])))
         \<and> (admits fs (resolved_path self)
               \<longrightarrow> Roc_dump rt sk self (PTuple [y_true, y_score]) kw fs
                     = (Inr (), written fs (resolved_path self)
                                  (PDict [(PStr ''roc'', PList recs)])))"
proof -
  let ?recs = "map (record3 ''fpr'' ''tpr'' ''threshold'') (zip fpr (zip tpr thr))"
  let ?doc = "PDict [(PStr ''roc'', PList ?recs)]"
  let ?d = "Roc_dump rt sk self (PTuple [y_true, y_score]) kw fs"
  have c: "call3 rt (roc_curve m) [''y_true'', ''y_score''] (PTuple [y_true, y_score]) kw
             = Inr (fpr, tpr, thr)"
    using kw r by (simp add: call3_pair)
  have d: "?d = write_out ?doc self fs"
    using m c by (simp add: Roc_dump_def)
  have len: "length ?recs = min (length fpr) (min (length tpr) (length thr))" by simp
  have len': "length fpr = length thr \<and> length tpr = length thr \<longrightarrow> length ?recs = length thr"
    by simp
  have nth: "\<forall>i. i < length ?recs \<longrightarrow>
               ?recs ! i = PDict [(PStr ''fpr'', PFloat (fpr ! i)),
                                  (PStr ''tpr'', PFloat (tpr ! i)),
                                  (PStr ''threshold'', PFloat (thr ! i))]"
    by (simp add: record3_def)
  have w: "\<forall>fs'. ?d = (Inr (), fs') \<longrightarrow> entries fs' (resolved_path self) = Some (File ?doc)"
    unfolding d by (auto dest: write_out_Inr_entry)
  have s: "admits fs (resolved_path self) \<longrightarrow> ?d = (Inr (), written fs (resolved_path self) ?doc)"
    unfolding d by (rule impI) (rule write_out_succeeds)
  show ?thesis
    apply (rule exI[of _ ?recs])
    apply (intro conjI)
    subgoal by (rule d)
    subgoal by (rule len)
    subgoal by (rule len')
    subgoal by (rule nth)
    subgoal by (rule w)
    subgoal by (rule s)
    done
qed

lemma resolved_path_roc:
  "resolved_path (new_plot rt v ''roc'' ''dvclive/plots'' kw)
     = \<lparr>anchor = [], segments = [''dvclive'', ''plots'', ''sklearn'', ''roc.json'']\<rparr>"
  by (simp add: resolved_path_def new_plot_fields Path_join_def Path_of_def Path_str_def
      parse_anchor_def subfolder_def Let_def)

theorem roc_dump_records_witness:
  "metrics example_sklearn
     = Some \<lparr>roc_curve = example_roc, precision_recall_curve = failing_curve3,
             det_curve = failing_curve3\<rparr>
   \<and> \<not> kw_clash [''y_true'', ''y_score''] ([] :: rat kwargs)
   \<and> admits (empty_fs :: rat pyval filesystem)
        (resolved_path (new_plot rat_runtime Roc ''roc'' ''dvclive/plots'' []))
   \<and> (\<exists>recs.
        Roc_dump rat_runtime example_sklearn (new_plot rat_runtime Roc ''roc'' ''dvclive/plots'' [])
          (PTuple [PList [PInt 0, PInt 0, PInt 1, PInt 1],
                   PList [PFloat (1/10), PFloat (2/5), PFloat (7/20), PFloat (4/5)]])
          [] empty_fs
          = (Inr (), written empty_fs
               \<lparr>anchor = [], segments = [''dvclive'', ''plots'', ''sklearn'', ''roc.json'']\<rparr>
               (PDict [(PStr ''roc'', PList recs)]))
        \<and> length recs = 5
        \<and> recs ! 2 = PDict [(PStr ''fpr'', PFloat (1/2)), (PStr ''tpr'', PFloat (1/2)),
                            (PStr ''threshold'', PFloat (2/5))])"
proof -
  let ?m = "\<lparr>roc_curve = example_roc, precision_recall_curve = failing_curve3,
             det_curve = failing_curve3\<rparr> :: rat metrics_module"
  let ?self = "new_plot rat_runtime Roc ''roc'' ''dvclive/plots'' [] :: rat plot"
  let ?a = "PList [PInt 0, PInt 0, PInt 1, PInt 1] :: rat pyval"
  let ?b = "PList [PFloat (1/10), PFloat (2/5), PFloat (7/20), PFloat (4/5)] :: rat pyval"
  let ?fpr = "[0, 0, 1/2, 1/2, 1] :: rat list"
  let ?tpr = "[0, 1/2, 1/2, 1, 1] :: rat list"
  let ?thr = "[9/5, 4/5, 2/5, 7/20, 1/10] :: rat list"
  have m: "metrics example_sklearn = Some ?m" by (simp add: example_sklearn_def)
  have k: "\<not> kw_clash [''y_true'', ''y_score''] ([] :: rat kwargs)" by (simp add: kw_clash_def)
  have r: "roc_curve ?m ?a ?b [] = Inr (?fpr, ?tpr, ?thr)" by (simp add: example_roc_def)
  have p: "resolved_path ?self
     = \<lparr>anchor = [], segments = [''dvclive'', ''plots'', ''sklearn'', ''roc.json'']\<rparr>"
    by (rule resolved_path_roc)
  have ad: "admits (empty_fs :: rat pyval filesystem) (resolved_path ?self)"
    by (rule admits_empty_fs) (simp add: p)
  from roc_dump_records[OF m k r, of rat_runtime ?self empty_fs]
  obtain recs where
    len: "length recs = min (length ?fpr) (min (length ?tpr) (length ?thr))"
    and nth: "\<forall>i. i < length recs \<longrightarrow>
               recs ! i = PDict [(PStr ''fpr'', PFloat (?fpr ! i)),
                                 (PStr ''tpr'', PFloat (?tpr ! i)),
                                 (PStr ''threshold'', PFloat (?thr ! i))]"
    and s: "admits (empty_fs :: rat pyval filesystem) (resolved_path ?self)
               \<longrightarrow> Roc_dump rat_runtime example_sklearn ?self (PTuple [?a, ?b]) [] empty_fs
                     = (Inr (), written empty_fs (resolved_path ?self)
                                  (PDict [(PStr ''roc'', PList recs)]))"
    by (elim exE conjE) (rule that)
  from s ad have d: "Roc_dump rat_runtime example_sklearn ?self (PTuple [?a, ?b]) [] empty_fs
                     = (Inr (), written empty_fs (resolved_path ?self)
                                  (PDict [(PStr ''roc'', PList recs)]))"
    by (rule mp)
  have l5: "length recs = 5" using len by simp
  then have "(2::nat) < length recs" by simp
  with nth have "recs ! 2 = PDict [(PStr ''fpr'', PFloat (?fpr ! 2)),
                                 (PStr ''tpr'', PFloat (?tpr ! 2)),
                                 (PStr ''threshold'', PFloat (?thr ! 2))]"
    by blast
  then have n2: "recs ! 2 = PDict [(PStr ''fpr'', PFloat (1/2)), (PStr ''tpr'', PFloat (1/2)),
                            (PStr ''threshold'', PFloat (2/5))]"
    by simp
  have ex: "\<exists>recs.
        Roc_dump rat_runtime example_sklearn ?self (PTuple [?a, ?b]) [] empty_fs
          = (Inr (), written empty_fs
               \<lparr>anchor = [], segments = [''dvclive'', ''plots'', ''sklearn'', ''roc.json'']\<rparr>
               (PDict [(PStr ''roc'', PList recs)]))
        \<and> length recs = 5
        \<and> recs ! 2 = PDict [(PStr ''fpr'', PFloat (1/2)), (PStr ''tpr'', PFloat (1/2)),
                            (PStr ''threshold'', PFloat (2/5))]"
    apply (rule exI[of _ recs])
    apply (intro conjI)
    subgoal using d by (simp only: p)
    subgoal by (rule l5)
    subgoal by (rule n2)
    done
  show ?thesis
    apply (intro conjI)
    subgoal by (rule m)
    subgoal by (rule k)
    subgoal by (rule ad)
    subgoal by (rule ex)
    done
qed

section \<open>The location of the output file\<close>

lemma split_on_nonempty: "split_on sep s \<noteq> []"
  by (induction s) (auto split: list.splits)

lemma split_on_free: "x \<in> set (split_on sep s) \<Longrightarrow> sep \<notin> set x"
proof (induction s arbitrary: x)
  case Nil
  then show ?case by simp
next
  case (Cons c cs)
  show ?case
  proof (cases "c = sep")
    case True
    with Cons show ?thesis by auto
  next
    case False
    obtain w ws where w: "split_on sep cs = w # ws"
      using split_on_nonempty[of sep cs] by (cases "split_on sep cs") auto
    from Cons.prems False w have "x = c # w \<or> x \<in> set ws" by simp
    then show ?thesis
    proof
      assume "x = c # w"
      moreover have "sep \<notin> set w" using Cons.IH[of w] w by simp
      ultimately show ?thesis using False by auto
    next
      assume "x \<in> set ws"
      then show ?thesis using Cons.IH[of x] w by simp
    qed
  qed
qed

lemma split_on_no_sep: "sep \<notin> set s \<Longrightarrow> split_on sep s = [s]"
  by (induction s) auto

lemma split_on_append_sep:
  "sep \<notin> set x \<Longrightarrow> split_on sep (x @ sep # r) = x # split_on sep r"
  by (induction x) auto

lemma split_on_join:
  assumes "xs \<noteq> []" and "\<forall>x\<in>set xs. sep \<notin> set x" and "sep \<notin> set t"
  shows "split_on sep (join_sep [sep] xs @ t) = butlast xs @ [last xs @ t]"
  using assms
proof (induction xs)
  case Nil
  then show ?case by simp
next
  case (Cons x xs)
  show ?case
  proof (cases xs)
    case Nil
    then show ?thesis using Cons.prems by (simp add: split_on_no_sep)
  next
    case (Cons y ys)
    then have IH: "split_on sep (join_sep [sep] xs @ t) = butlast xs @ [last xs @ t]"
      using Cons.IH Cons.prems by simp
    have x: "sep \<notin> set x" using Cons.prems by simp
    have "join_sep [sep] (x # xs) @ t = x @ sep # (join_sep [sep] xs @ t)"
      using Cons by simp
    then have "split_on sep (join_sep [sep] (x # xs) @ t) = x # split_on sep (join_sep [sep] xs @ t)"
      using split_on_append_sep[OF x, of "join_sep [sep] xs @ t"] by simp
    then show ?thesis using IH Cons by simp
  qed
qed

lemma Path_of_wf: "wf_path (Path_of s)"
proof -
  have "parse_anchor s \<in> set [[], ''/'', ''//'']"
    by (simp add: parse_anchor_def)
  moreover have "list_all (\<lambda>s. s \<noteq> [] \<and> s \<noteq> ''.'' \<and> CHR ''/'' \<notin> set s)
                   (filter (\<lambda>n. n \<noteq> [] \<and> n \<noteq> ''.'') (split_on CHR ''/'' s))"
    unfolding list_all_iff using split_on_free[of _ "CHR ''/''" s] by auto
  ultimately show ?thesis
    unfolding wf_path_def Path_of_def by simp
qed

lemma Path_join_wf:
  assumes "wf_path p"
  shows "wf_path (Path_join p s)"
proof (cases "anchor (Path_of s) = []")
  case True
  then have "Path_join p s = p\<lparr>segments := segments p @ segments (Path_of s)\<rparr>"
    by (simp add: Path_join_def Let_def)
  then show ?thesis
    using assms Path_of_wf[of s] by (simp add: wf_path_def)
next
  case False
  then have "Path_join p s = Path_of s" by (simp add: Path_join_def Let_def)
  then show ?thesis using Path_of_wf[of s] by simp
qed

lemma join_sep_head:
  "join_sep sep ((c # r) # xs) @ t = c # tl (join_sep sep ((c # r) # xs) @ t)"
  by (cases xs) simp_all

lemma parse_anchor_relative: "c \<noteq> CHR ''/'' \<Longrightarrow> parse_anchor (c # r) = []"
  by (simp add: parse_anchor_def)

lemma parse_anchor_root: "c \<noteq> CHR ''/'' \<Longrightarrow> parse_anchor (CHR ''/'' # c # r) = ''/''"
  by (simp add: parse_anchor_def)

lemma parse_anchor_double:
  "c \<noteq> CHR ''/'' \<Longrightarrow> parse_anchor (CHR ''/'' # CHR ''/'' # c # r) = ''//''"
  by (simp add: parse_anchor_def)

lemma Path_of_ext:
  assumes wf: "wf_path p" and ne: "segments p \<noteq> []"
    and t: "t \<noteq> []" "CHR ''/'' \<notin> set t"
  shows "Path_of (Path_str p @ t)
           = \<lparr>anchor = anchor p, segments = butlast (segments p) @ [last (segments p) @ t]\<rparr>"
proof -
  let ?segs = "segments p"
  let ?b = "join_sep ''/'' ?segs @ t"
  let ?keep = "\<lambda>n. n \<noteq> [] \<and> n \<noteq> ''.''"
  from wf have segs: "\<forall>x\<in>set ?segs. x \<noteq> [] \<and> x \<noteq> ''.'' \<and> CHR ''/'' \<notin> set x"
    and anc: "anchor p = [] \<or> anchor p = ''/'' \<or> anchor p = ''//''"
    by (auto simp: wf_path_def list_all_iff)
  have str: "Path_str p @ t = anchor p @ ?b"
    using ne by (simp add: Path_str_def)
  from ne obtain x xs where x: "?segs = x # xs" by (cases ?segs) auto
  with segs have "x \<noteq> []" and xfree: "CHR ''/'' \<notin> set x" by simp_all
  then obtain c r where cr: "x = c # r" by (cases x) auto
  with xfree have c: "c \<noteq> CHR ''/''" by auto
  have "?b = c # tl ?b"
    unfolding x cr by (rule join_sep_head)
  then obtain b' where b: "?b = c # b'" by blast
  have "split_on CHR ''/'' (join_sep [CHR ''/''] ?segs @ t) = butlast ?segs @ [last ?segs @ t]"
    using ne segs t(2) by (intro split_on_join) auto
  then have sp: "split_on CHR ''/'' ?b = butlast ?segs @ [last ?segs @ t]"
    by simp
  have lastseg: "last ?segs \<noteq> []" using ne segs by simp
  then have ge2: "length (last ?segs @ t) \<ge> 2"
    using t(1) by (cases "last ?segs"; cases t) simp_all
  have nd: "last ?segs @ t \<noteq> ''.''"
  proof
    assume "last ?segs @ t = ''.''"
    then have "length (last ?segs @ t) = length ''.''" by (rule arg_cong)
    with ge2 show False by simp
  qed
  have "last ?segs @ t \<noteq> []" using t(1) by simp
  with nd have lk: "?keep (last ?segs @ t)" by simp
  have "\<forall>x\<in>set (butlast ?segs). ?keep x"
    using segs by (auto dest: in_set_butlastD)
  then have fb: "filter ?keep (butlast ?segs) = butlast ?segs"
    by (simp add: filter_id_conv)
  have filt: "filter ?keep (split_on CHR ''/'' ?b) = butlast ?segs @ [last ?segs @ t]"
    unfolding sp filter_append fb using lk by simp
  from anc show ?thesis
  proof (elim disjE)
    assume a: "anchor p = []"
    have "parse_anchor ?b = []" unfolding b using c by (rule parse_anchor_relative)
    then show ?thesis
      unfolding str a Path_of_def using filt by simp
  next
    assume a: "anchor p = ''/''"
    have "parse_anchor (CHR ''/'' # ?b) = ''/''" unfolding b using c by (rule parse_anchor_root)
    moreover have "filter ?keep (split_on CHR ''/'' (CHR ''/'' # ?b)) = butlast ?segs @ [last ?segs @ t]"
      using filt by simp
    ultimately show ?thesis
      unfolding str a Path_of_def by simp
  next
    assume a: "anchor p = ''//''"
    have "parse_anchor (CHR ''/'' # CHR ''/'' # ?b) = ''//''"
      unfolding b using c by (rule parse_anchor_double)
    moreover have "filter ?keep (split_on CHR ''/'' (CHR ''/'' # CHR ''/'' # ?b))
                     = butlast ?segs @ [last ?segs @ t]"
      using filt by simp
    ultimately show ?thesis
      unfolding str a Path_of_def by simp
  qed
qed

lemma output_folder_new_plot:
  "output_folder (new_plot rt v nm folder kw)
     = \<lparr>anchor = anchor (Path_of folder), segments = segments (Path_of folder) @ [''sklearn'']\<rparr>"
proof -
  have "Path_of ''sklearn'' = \<lparr>anchor = [], segments = [''sklearn'']\<rparr>"
    by (simp add: Path_of_def parse_anchor_def)
  then show ?thesis
    by (simp add: new_plot_fields Path_join_def subfolder_def Let_def)
qed

lemma resolved_path_relative:
  assumes rel: "anchor (Path_of (name self)) = []"
    and ne: "segments (Path_of (name self)) \<noteq> []"
    and wf: "wf_path (output_folder self)"
  shows "resolved_path self
           = \<lparr>anchor = anchor (output_folder self),
              segments = segments (output_folder self)
                         @ butlast (segments (Path_of (name self)))
                         @ [last (segments (Path_of (name self))) @ ''.json'']\<rparr>"
proof -
  let ?q = "Path_join (output_folder self) (name self)"
  let ?ns = "segments (Path_of (name self))"
  have q: "?q = (output_folder self)\<lparr>segments := segments (output_folder self) @ ?ns\<rparr>"
    using rel by (simp add: Path_join_def Let_def)
  have wq: "wf_path ?q" using wf by (rule Path_join_wf)
  have nq: "segments ?q \<noteq> []" using ne by (simp add: q)
  have "Path_of (Path_str ?q @ ''.json'')
          = \<lparr>anchor = anchor ?q, segments = butlast (segments ?q) @ [last (segments ?q) @ ''.json'']\<rparr>"
    using wq nq by (rule Path_of_ext) simp_all
  moreover have "anchor ?q = anchor (output_folder self)" by (simp add: q)
  moreover have "butlast (segments ?q) = segments (output_folder self) @ butlast ?ns"
    using ne by (simp add: q butlast_append)
  moreover have "last (segments ?q) = last ?ns" using ne by (simp add: q)
  ultimately show ?thesis
    unfolding resolved_path_def by (simp only: append_assoc)
qed

lemma lies_under_extended: "ys \<noteq> [] \<Longrightarrow> lies_under \<lparr>anchor = anchor d, segments = segments d @ ys\<rparr> d"
  by (simp add: lies_under_def strict_prefix_def)

lemma dump_Inr_write_out:
  assumes "dump rt sk self val kw fs = (Inr u, fs')"
  shows "\<exists>c. write_out c self fs = (Inr u, fs')"
proof (cases "cls self")
  case Roc
  with assms show ?thesis
    by (auto simp: dump_def Roc_dump_def split: option.splits sum.splits prod.splits)
next
  case PrecisionRecall
  with assms show ?thesis
    by (auto simp: dump_def PrecisionRecall_dump_def split: option.splits sum.splits prod.splits)
next
  case Det
  with assms show ?thesis
    by (auto simp: dump_def Det_dump_def split: option.splits sum.splits prod.splits)
next
  case ConfusionMatrix
  with assms show ?thesis
    by (auto simp: dump_def ConfusionMatrix_dump_def split: sum.splits)
next
  case Calibration
  with assms show ?thesis
    by (auto simp: dump_def Calibration_dump_def split: option.splits sum.splits prod.splits)
qed

text \<open>
  Claim C2, as amended. For an adapter whose stored name parses to a relative path with
  at least one component, the resolved output path has the root and the components of
  \<^verbatim>\<open><output_folder>/<subfolder>\<close> followed by the components of the name, the last of
  them with \<^verbatim>\<open>.json\<close> appended, so it lies under that folder. For every adapter,
  whatever its name: a path that \<open>output_path\<close> returns is the resolved one and its
  parent is a directory afterwards; whenever \<open>dump\<close> returns, the parent of the resolved
  path is a directory and the file exists; and on a file system that admits the path,
  where none of the directories need exist, resolving succeeds and creates them.
\<close>

theorem output_path_below_subfolder:
  fixes fs :: "'f pyval filesystem" and rt :: "'f runtime"
  assumes self: "self = new_plot rt v nm folder kw"
  shows "(anchor (Path_of (name self)) = [] \<and> segments (Path_of (name self)) \<noteq> [] \<longrightarrow>
            resolved_path self
              = \<lparr>anchor = anchor (output_folder self),
                 segments = segments (output_folder self)
                            @ butlast (segments (Path_of (name self)))
                            @ [last (segments (Path_of (name self))) @ ''.json'']\<rparr>
            \<and> lies_under (resolved_path self) (output_folder self))
       \<and> output_folder self
            = \<lparr>anchor = anchor (Path_of folder), segments = segments (Path_of folder) @ [''sklearn'']\<rparr>
       \<and> (\<forall>p fs'. output_path self fs = (Inr p, fs') \<longrightarrow>
              p = resolved_path self \<and> is_dir fs' (parent p))
       \<and> (\<forall>u fs'. dump rt sk self val kw' fs = (Inr u, fs') \<longrightarrow>
              is_dir fs' (parent (resolved_path self))
            \<and> entries fs' (resolved_path self) \<noteq> None)
       \<and> (admits fs (resolved_path self) \<longrightarrow>
              output_path self fs
                = (Inr (resolved_path self), with_dirs fs (parent (resolved_path self)))
            \<and> is_dir (with_dirs fs (parent (resolved_path self))) (parent (resolved_path self)))"
proof -
  let ?ns = "segments (Path_of (name self))"
  have wf: "wf_path (output_folder self)"
    unfolding self new_plot_fields by (rule Path_join_wf) (rule Path_of_wf)
  have shape: "anchor (Path_of (name self)) = [] \<and> ?ns \<noteq> [] \<longrightarrow>
            resolved_path self
              = \<lparr>anchor = anchor (output_folder self),
                 segments = segments (output_folder self) @ butlast ?ns @ [last ?ns @ ''.json'']\<rparr>
            \<and> lies_under (resolved_path self) (output_folder self)"
  proof (intro impI, elim conjE)
    assume rel: "anchor (Path_of (name self)) = []" and ne: "?ns \<noteq> []"
    have r: "resolved_path self
              = \<lparr>anchor = anchor (output_folder self),
                 segments = segments (output_folder self) @ butlast ?ns @ [last ?ns @ ''.json'']\<rparr>"
      using rel ne wf by (rule resolved_path_relative)
    have "lies_under \<lparr>anchor = anchor (output_folder self),
                 segments = segments (output_folder self) @ (butlast ?ns @ [last ?ns @ ''.json''])\<rparr>
            (output_folder self)"
      by (rule lies_under_extended) simp
    then have "lies_under (resolved_path self) (output_folder self)"
      by (simp only: r)
    with r show "resolved_path self
              = \<lparr>anchor = anchor (output_folder self),
                 segments = segments (output_folder self) @ butlast ?ns @ [last ?ns @ ''.json'']\<rparr>
            \<and> lies_under (resolved_path self) (output_folder self)"
      by (rule conjI)
  qed
  have folder: "output_folder self
            = \<lparr>anchor = anchor (Path_of folder), segments = segments (Path_of folder) @ [''sklearn'']\<rparr>"
    unfolding self by (rule output_folder_new_plot)
  have op: "\<forall>p fs'. output_path self fs = (Inr p, fs') \<longrightarrow>
              p = resolved_path self \<and> is_dir fs' (parent p)"
    by (auto simp: resolved_path_def dest: output_path_Inr)
  have dmp: "\<forall>u fs'. dump rt sk self val kw' fs = (Inr u, fs') \<longrightarrow>
              is_dir fs' (parent (resolved_path self))
            \<and> entries fs' (resolved_path self) \<noteq> None"
  proof (intro allI impI)
    fix u fs'
    assume "dump rt sk self val kw' fs = (Inr u, fs')"
    then obtain c where "write_out c self fs = (Inr u, fs')"
      using dump_Inr_write_out by blast
    from write_out_Inr_entry[OF this]
    show "is_dir fs' (parent (resolved_path self)) \<and> entries fs' (resolved_path self) \<noteq> None"
      by simp
  qed
  have adm: "admits fs (resolved_path self) \<longrightarrow>
              output_path self fs
                = (Inr (resolved_path self), with_dirs fs (parent (resolved_path self)))
            \<and> is_dir (with_dirs fs (parent (resolved_path self))) (parent (resolved_path self))"
  proof (intro impI conjI)
    assume a: "admits fs (resolved_path self)"
    then show o: "output_path self fs
                = (Inr (resolved_path self), with_dirs fs (parent (resolved_path self)))"
      by (rule output_path_succeeds)
    from output_path_Inr[OF o]
    show "is_dir (with_dirs fs (parent (resolved_path self))) (parent (resolved_path self))"
      by (rule conjunct2)
  qed
  show ?thesis
    apply (intro conjI)
    subgoal by (rule shape)
    subgoal by (rule folder)
    subgoal by (rule op)
    subgoal by (rule dmp)
    subgoal by (rule adm)
    done
qed

text \<open>
  The claim as written, for any name, fails: an absolute name replaces the output folder,
  and a name that is empty once the extension is removed puts the file beside the
  subfolder instead of inside it.
\<close>

lemma resolved_path_absolute:
  "resolved_path (new_plot rt v ''/tmp/x'' ''out'' kw)
     = \<lparr>anchor = ''/'', segments = [''tmp'', ''x.json'']\<rparr>"
  by (simp add: resolved_path_def new_plot_fields Path_join_def Path_of_def Path_str_def
      parse_anchor_def subfolder_def Let_def)

lemma resolved_path_empty:
  "resolved_path (new_plot rt v ''.json'' ''out'' kw)
     = \<lparr>anchor = [], segments = [''out'', ''sklearn.json'']\<rparr>"
  by (simp add: resolved_path_def new_plot_fields Path_join_def Path_of_def Path_str_def
      parse_anchor_def subfolder_def Let_def)

lemma output_folder_out:
  "output_folder (new_plot rt v nm ''out'' kw) = \<lparr>anchor = [], segments = [''out'', ''sklearn'']\<rparr>"
  by (simp add: output_folder_new_plot Path_of_def parse_anchor_def)

theorem name_escapes_subfolder:
  "output_folder (new_plot unit_runtime Roc ''/tmp/x'' ''out'' [] :: unit plot)
     = \<lparr>anchor = [], segments = [''out'', ''sklearn'']\<rparr>
   \<and> fst (output_path (new_plot unit_runtime Roc ''/tmp/x'' ''out'' [] :: unit plot)
          (empty_fs :: unit pyval filesystem))
       = Inr \<lparr>anchor = ''/'', segments = [''tmp'', ''x.json'']\<rparr>
   \<and> \<not> lies_under \<lparr>anchor = ''/'', segments = [''tmp'', ''x.json'']\<rparr>
                    \<lparr>anchor = [], segments = [''out'', ''sklearn'']\<rparr>
   \<and> output_folder (new_plot unit_runtime Roc ''.json'' ''out'' [] :: unit plot)
       = \<lparr>anchor = [], segments = [''out'', ''sklearn'']\<rparr>
   \<and> fst (output_path (new_plot unit_runtime Roc ''.json'' ''out'' [] :: unit plot)
          (empty_fs :: unit pyval filesystem))
       = Inr \<lparr>anchor = [], segments = [''out'', ''sklearn.json'']\<rparr>
   \<and> \<not> lies_under \<lparr>anchor = [], segments = [''out'', ''sklearn.json'']\<rparr>
                    \<lparr>anchor = [], segments = [''out'', ''sklearn'']\<rparr>"
proof -
  let ?a = "new_plot unit_runtime Roc ''/tmp/x'' ''out'' [] :: unit plot"
  let ?e = "new_plot unit_runtime Roc ''.json'' ''out'' [] :: unit plot"
  have "admits (empty_fs :: unit pyval filesystem) (resolved_path ?a)"
    by (rule admits_empty_fs) (simp add: resolved_path_absolute)
  then have "output_path ?a (empty_fs :: unit pyval filesystem)
               = (Inr (resolved_path ?a), with_dirs empty_fs (parent (resolved_path ?a)))"
    by (rule output_path_succeeds)
  then have pa: "fst (output_path ?a (empty_fs :: unit pyval filesystem))
               = Inr \<lparr>anchor = ''/'', segments = [''tmp'', ''x.json'']\<rparr>"
    by (simp add: resolved_path_absolute)
  have "admits (empty_fs :: unit pyval filesystem) (resolved_path ?e)"
    by (rule admits_empty_fs) (simp add: resolved_path_empty)
  then have "output_path ?e (empty_fs :: unit pyval filesystem)
               = (Inr (resolved_path ?e), with_dirs empty_fs (parent (resolved_path ?e)))"
    by (rule output_path_succeeds)
  then have pe: "fst (output_path ?e (empty_fs :: unit pyval filesystem))
               = Inr \<lparr>anchor = [], segments = [''out'', ''sklearn.json'']\<rparr>"
    by (simp add: resolved_path_empty)
  have na: "\<not> lies_under \<lparr>anchor = ''/'', segments = [''tmp'', ''x.json'']\<rparr>
                    \<lparr>anchor = [], segments = [''out'', ''sklearn'']\<rparr>"
    by (simp add: lies_under_def)
  have ne: "\<not> lies_under \<lparr>anchor = [], segments = [''out'', ''sklearn.json'']\<rparr>
                    \<lparr>anchor = [], segments = [''out'', ''sklearn'']\<rparr>"
    by (simp add: lies_under_def)
  show ?thesis
    apply (intro conjI)
    subgoal by (rule output_folder_out)
    subgoal by (rule pa)
    subgoal by (rule na)
    subgoal by (rule output_folder_out)
    subgoal by (rule pe)
    subgoal by (rule ne)
    done
qed

theorem output_path_below_subfolder_witness:
  "anchor (Path_of (name (new_plot unit_runtime ConfusionMatrix ''cm.json'' ''out'' [] :: unit plot))) = []
   \<and> segments (Path_of (name (new_plot unit_runtime ConfusionMatrix ''cm.json'' ''out'' [] :: unit plot)))
       = [''cm'']
   \<and> admits (empty_fs :: unit pyval filesystem)
        (resolved_path (new_plot unit_runtime ConfusionMatrix ''cm.json'' ''out'' []))
   \<and> resolved_path (new_plot unit_runtime ConfusionMatrix ''cm.json'' ''out'' [] :: unit plot)
       = \<lparr>anchor = [], segments = [''out'', ''sklearn'', ''cm.json'']\<rparr>
   \<and> lies_under \<lparr>anchor = [], segments = [''out'', ''sklearn'', ''cm.json'']\<rparr>
        (output_folder (new_plot unit_runtime ConfusionMatrix ''cm.json'' ''out'' [] :: unit plot))
   \<and> \<not> is_dir (empty_fs :: unit pyval filesystem) \<lparr>anchor = [], segments = [''out'', ''sklearn'']\<rparr>
   \<and> fst (dump unit_runtime failing_sklearn
            (new_plot unit_runtime ConfusionMatrix ''cm.json'' ''out'' []) cat_dog [] empty_fs)
       = Inr ()
   \<and> is_dir (snd (dump unit_runtime failing_sklearn
            (new_plot unit_runtime ConfusionMatrix ''cm.json'' ''out'' []) cat_dog [] empty_fs))
        \<lparr>anchor = [], segments = [''out'', ''sklearn'']\<rparr>"
proof -
  let ?self = "new_plot unit_runtime ConfusionMatrix ''cm.json'' ''out'' [] :: unit plot"
  let ?fs' = "written (empty_fs :: unit pyval filesystem) (resolved_path ?self) cat_dog_json"
  note th = output_path_below_subfolder[OF refl, where rt = unit_runtime and v = ConfusionMatrix
              and nm = "''cm.json''" and folder = "''out''" and kw = "[]" and sk = failing_sklearn
              and val = cat_dog and kw' = "[]" and fs = "empty_fs :: unit pyval filesystem"]
  have nm: "name ?self = ''cm''" by (simp add: new_plot_fields)
  have rel: "anchor (Path_of (name ?self)) = []"
    by (simp add: nm Path_of_def parse_anchor_def)
  have segs: "segments (Path_of (name ?self)) = [''cm'']"
    by (simp add: nm Path_of_def)
  have ne: "segments (Path_of (name ?self)) \<noteq> []" by (simp only: segs) simp
  have "anchor (Path_of (name ?self)) = [] \<and> segments (Path_of (name ?self)) \<noteq> [] \<longrightarrow>
            resolved_path ?self
              = \<lparr>anchor = anchor (output_folder ?self),
                 segments = segments (output_folder ?self)
                            @ butlast (segments (Path_of (name ?self)))
                            @ [last (segments (Path_of (name ?self))) @ ''.json'']\<rparr>
            \<and> lies_under (resolved_path ?self) (output_folder ?self)"
    by (rule th[THEN conjunct1])
  with rel ne have sh: "resolved_path ?self
              = \<lparr>anchor = anchor (output_folder ?self),
                 segments = segments (output_folder ?self)
                            @ butlast (segments (Path_of (name ?self)))
                            @ [last (segments (Path_of (name ?self))) @ ''.json'']\<rparr>"
    and under: "lies_under (resolved_path ?self) (output_folder ?self)"
    by blast+
  have p: "resolved_path ?self = \<lparr>anchor = [], segments = [''out'', ''sklearn'', ''cm.json'']\<rparr>"
    unfolding sh segs output_folder_out by simp
  have ad: "admits (empty_fs :: unit pyval filesystem) (resolved_path ?self)"
    by (rule admits_empty_fs) (simp add: p)
  have cl: "cls ?self = ConfusionMatrix" by (rule cls_new_plot)
  have "dump unit_runtime failing_sklearn ?self cat_dog [] empty_fs
          = write_out cat_dog_json ?self empty_fs"
    by (simp add: dump_def cl confusion_dump_cat_dog)
  also have "\<dots> = (Inr (), ?fs')"
    using ad by (rule write_out_succeeds)
  finally have d: "dump unit_runtime failing_sklearn ?self cat_dog [] empty_fs = (Inr (), ?fs')" .
  have "\<forall>u fs'. dump unit_runtime failing_sklearn ?self cat_dog [] empty_fs = (Inr u, fs') \<longrightarrow>
              is_dir fs' (parent (resolved_path ?self))
            \<and> entries fs' (resolved_path ?self) \<noteq> None"
    by (rule th[THEN conjunct2, THEN conjunct2, THEN conjunct2, THEN conjunct1])
  with d have "is_dir ?fs' (parent (resolved_path ?self))" by blast
  then have after: "is_dir (snd (dump unit_runtime failing_sklearn ?self cat_dog [] empty_fs))
        \<lparr>anchor = [], segments = [''out'', ''sklearn'']\<rparr>"
    by (simp add: d p parent_def)
  have before: "\<not> is_dir (empty_fs :: unit pyval filesystem) \<lparr>anchor = [], segments = [''out'', ''sklearn'']\<rparr>"
    by (simp add: is_dir_def empty_fs_def)
  have ok: "fst (dump unit_runtime failing_sklearn ?self cat_dog [] empty_fs) = Inr ()"
    by (simp add: d)
  have under': "lies_under \<lparr>anchor = [], segments = [''out'', ''sklearn'', ''cm.json'']\<rparr>
        (output_folder ?self)"
    using under by (simp only: p)
  show ?thesis
    apply (intro conjI)
    subgoal by (rule rel)
    subgoal by (rule segs)
    subgoal by (rule ad)
    subgoal by (rule p)
    subgoal by (rule under')
    subgoal by (rule before)
    subgoal by (rule ok)
    subgoal by (rule after)
    done
qed

end
